theory Spec2Isabelle
  imports Complex_Main
begin

section \<open>Binary floating point, as the program computes with it\<close>

text \<open>
  \<^verbatim>\<open>GoldenPCA<T>\<close> stores its matrices in the element type \<^verbatim>\<open>T\<close> (\<^verbatim>\<open>float\<close> or
  \<^verbatim>\<open>double\<close>) and computes in \<^verbatim>\<open>double\<close>. Several properties of the program are decided by
  what IEEE 754 arithmetic does at zero, at infinity and at NaN, where the arithmetic of
  a field says something else (in HOL, \<open>x / 0 = 0\<close>). The values are therefore modelled
  as such: one NaN (payloads are not distinguished), the two infinities, and the finite
  values, a sign and a magnitude, so that the two zeros are distinct. A finite magnitude
  is the rational number the bit pattern denotes; every operation computes the exact
  result and rounds it to the nearest value of the format, ties to even, the default
  rounding mode.
\<close>

datatype fp = NaN | Inf bool | Fin bool rat

text \<open>
  A binary format: the precision \<open>prec\<close> in bits (hidden bit included), the exponent
  \<open>emin\<close> of the smallest positive subnormal value, which is \<open>2 powi emin\<close>, and
  \<open>emax\<close>, where \<open>2 powi emax\<close> is the first power of two that overflows.
\<close>

record fformat =
  prec :: nat
  emin :: int
  emax :: int

definition binary64 :: fformat where
  "binary64 = \<lparr>prec = 53, emin = - 1074, emax = 1024\<rparr>"

definition binary32 :: fformat where
  "binary32 = \<lparr>prec = 24, emin = - 149, emax = 128\<rparr>"

text \<open>\<open>ilog2n n\<close> is the position of the highest set bit of \<open>n\<close>.\<close>

function ilog2n :: "int \<Rightarrow> int" where
  "ilog2n n = (if n < 2 then 0 else 1 + ilog2n (n div 2))"
  by pat_completeness auto
termination
  by (relation "measure nat") auto

declare ilog2n.simps [simp del]

text \<open>
  \<open>ilog2 x\<close> is the integer \<open>k\<close> with \<open>2 powi k \<le> x < 2 powi (k + 1)\<close>, for \<open>0 < x\<close>:
  the highest bit of the integer part where there is one, and otherwise the least \<open>k\<close>
  with \<open>1 / x \<le> 2 ^ k\<close>, negated.
\<close>

definition ilog2 :: "rat \<Rightarrow> int" where
  "ilog2 x = (if 1 \<le> x then ilog2n \<lfloor>x\<rfloor> else - (ilog2n (\<lceil>1 / x\<rceil> - 1) + 1))"

text \<open>Rounding a non-negative rational to the nearest integer, ties to even.\<close>

definition rhe :: "rat \<Rightarrow> int" where
  "rhe y = (let f = \<lfloor>y\<rfloor>; d = y - of_int f
            in if d < 1 / 2 then f else if 1 / 2 < d then f + 1
               else if even f then f else f + 1)"

text \<open>
  Rounding a magnitude to the format: the unit in the last place is \<open>2 powi e\<close>, where
  \<open>e\<close> leaves \<open>prec\<close> bits above it and is no lower than \<open>emin\<close>; \<open>None\<close> is overflow.
\<close>

definition round_mag :: "fformat \<Rightarrow> rat \<Rightarrow> rat option" where
  "round_mag F x =
     (if x = 0 then Some 0
      else let e = max (ilog2 x - (int (prec F) - 1)) (emin F);
               v = of_int (rhe (x / 2 powi e)) * 2 powi e
           in if 2 powi emax F \<le> v then None else Some v)"

definition round_to :: "fformat \<Rightarrow> bool \<Rightarrow> rat \<Rightarrow> fp" where
  "round_to F s x = (case round_mag F x of None \<Rightarrow> Inf s | Some v \<Rightarrow> Fin s v)"

text \<open>The signed value of a finite number.\<close>

definition sval :: "bool \<Rightarrow> rat \<Rightarrow> rat" where
  "sval s x = (if s then - x else x)"

fun fneg :: "fp \<Rightarrow> fp" where
  "fneg NaN = NaN"
| "fneg (Inf s) = Inf (\<not> s)"
| "fneg (Fin s x) = Fin (\<not> s) x"

fun fabs :: "fp \<Rightarrow> fp" where
  "fabs NaN = NaN"
| "fabs (Inf s) = Inf False"
| "fabs (Fin s x) = Fin False x"

text \<open>
  Addition. An exact sum of zero is \<open>+0\<close>, except that \<open>-0 + -0\<close> is \<open>-0\<close>;
  \<open>\<infinity> + -\<infinity>\<close> is NaN.
\<close>

fun fadd :: "fformat \<Rightarrow> fp \<Rightarrow> fp \<Rightarrow> fp" where
  "fadd F NaN y = NaN"
| "fadd F x NaN = NaN"
| "fadd F (Inf s) (Inf t) = (if s = t then Inf s else NaN)"
| "fadd F (Inf s) (Fin t y) = Inf s"
| "fadd F (Fin s x) (Inf t) = Inf t"
| "fadd F (Fin s x) (Fin t y) =
     (let v = sval s x + sval t y
      in if v = 0 then Fin (s \<and> t) 0 else round_to F (v < 0) \<bar>v\<bar>)"

definition fsub :: "fformat \<Rightarrow> fp \<Rightarrow> fp \<Rightarrow> fp" where
  "fsub F x y = fadd F x (fneg y)"

text \<open>Multiplication: the sign is the exclusive or of the signs; \<open>\<infinity> * 0\<close> is NaN.\<close>

fun fmul :: "fformat \<Rightarrow> fp \<Rightarrow> fp \<Rightarrow> fp" where
  "fmul F NaN y = NaN"
| "fmul F x NaN = NaN"
| "fmul F (Inf s) (Inf t) = Inf (s \<noteq> t)"
| "fmul F (Inf s) (Fin t y) = (if y = 0 then NaN else Inf (s \<noteq> t))"
| "fmul F (Fin s x) (Inf t) = (if x = 0 then NaN else Inf (s \<noteq> t))"
| "fmul F (Fin s x) (Fin t y) = round_to F (s \<noteq> t) (x * y)"

text \<open>
  Division: \<open>0 / 0\<close> and \<open>\<infinity> / \<infinity>\<close> are NaN, a non-zero finite value divided by zero
  is an infinity. Nothing traps.
\<close>

fun fdiv :: "fformat \<Rightarrow> fp \<Rightarrow> fp \<Rightarrow> fp" where
  "fdiv F NaN y = NaN"
| "fdiv F x NaN = NaN"
| "fdiv F (Inf s) (Inf t) = NaN"
| "fdiv F (Inf s) (Fin t y) = Inf (s \<noteq> t)"
| "fdiv F (Fin s x) (Inf t) = Fin (s \<noteq> t) 0"
| "fdiv F (Fin s x) (Fin t y) =
     (if y = 0 then (if x = 0 then NaN else Inf (s \<noteq> t))
      else round_to F (s \<noteq> t) (x / y))"

text \<open>The integer square root, by bisection on the digits in base 4.\<close>

function isqrt :: "int \<Rightarrow> int" where
  "isqrt n = (if n \<le> 0 then 0
              else let r = 2 * isqrt (n div 4)
                   in if (r + 1) * (r + 1) \<le> n then r + 1 else r)"
  by pat_completeness auto
termination
  by (relation "measure nat") auto

declare isqrt.simps [simp del]

text \<open>
  The correctly rounded square root of a positive magnitude: with \<open>2 powi e\<close> the unit
  in the last place of the root, the root lies between \<open>m\<close> and \<open>m + 1\<close> units, and
  the comparison of the argument with the square of the midpoint decides.
\<close>

definition sqrt_mag :: "fformat \<Rightarrow> rat \<Rightarrow> rat" where
  "sqrt_mag F x =
     (let e = max (ilog2 x div 2 - (int (prec F) - 1)) (emin F);
          y = x / 2 powi (2 * e);
          m = isqrt \<lfloor>y\<rfloor>;
          h = (of_int m + 1 / 2) * (of_int m + 1 / 2)
      in of_int (if y < h then m else if h < y then m + 1
                 else if even m then m else m + 1) * 2 powi e)"

fun fsqrt :: "fformat \<Rightarrow> fp \<Rightarrow> fp" where
  "fsqrt F NaN = NaN"
| "fsqrt F (Inf s) = (if s then NaN else Inf False)"
| "fsqrt F (Fin s x) =
     (if x = 0 then Fin s 0 else if s then NaN else Fin False (sqrt_mag F x))"

text \<open>\<open>x < y\<close> on floating point values: false whenever an operand is NaN.\<close>

fun flt :: "fp \<Rightarrow> fp \<Rightarrow> bool" where
  "flt NaN y = False"
| "flt x NaN = False"
| "flt (Inf s) (Inf t) = (s \<and> \<not> t)"
| "flt (Inf s) (Fin t y) = s"
| "flt (Fin s x) (Inf t) = (\<not> t)"
| "flt (Fin s x) (Fin t y) = (sval s x < sval t y)"

text \<open>\<open>x == y\<close> on floating point values: false for NaN, true for the two zeros.\<close>

fun feq :: "fp \<Rightarrow> fp \<Rightarrow> bool" where
  "feq NaN y = False"
| "feq x NaN = False"
| "feq (Inf s) (Inf t) = (s = t)"
| "feq (Inf s) (Fin t y) = False"
| "feq (Fin s x) (Inf t) = False"
| "feq (Fin s x) (Fin t y) = (sval s x = sval t y)"

text \<open>Conversion of a value to a format, and of an integer to a format.\<close>

fun fcvt :: "fformat \<Rightarrow> fp \<Rightarrow> fp" where
  "fcvt F NaN = NaN"
| "fcvt F (Inf s) = Inf s"
| "fcvt F (Fin s x) = round_to F s x"

definition fof_int :: "fformat \<Rightarrow> int \<Rightarrow> fp" where
  "fof_int F i = round_to F (i < 0) \<bar>of_int i\<bar>"

text \<open>A decimal literal of the source, rounded to its format.\<close>

definition flit :: "fformat \<Rightarrow> rat \<Rightarrow> fp" where
  "flit F x = round_to F (x < 0) \<bar>x\<bar>"


section \<open>The class \<^verbatim>\<open>GoldenPCA<T>\<close>\<close>

text \<open>
  The template parameter \<^verbatim>\<open>T\<close> is the format \<open>T\<close> passed to every operation; the
  type \<^verbatim>\<open>double\<close> is \<^const>\<open>binary64\<close>. The members are the fields of the record, with
  the names of the source. The stream \<^verbatim>\<open>std::cout\<close> is the field \<open>cout\<close>: the list of
  the tokens written so far. The dimensions are \<^verbatim>\<open>int\<close> in the source; they are natural
  numbers here, and the products of dimensions the source computes in \<^verbatim>\<open>int\<close> are taken
  not to overflow.
\<close>

datatype token = Text string | Value fp | Index nat | Endl

record golden_pca =
  samples :: nat
  features :: nat
  matrix_count :: nat
  debug :: bool
  benchmark_mode :: bool
  a_matrix :: "fp list"
  covariance_matrix :: "fp list"
  eigenvalues :: "fp list"
  eigenvectors :: "fp list"
  iterations :: "fp list"
  cout :: "token list"

datatype error = OutOfBounds

subsection \<open>The constructor\<close>

text \<open>
  \<^verbatim>\<open>resize\<close> fills a vector with zeros. The two loops read \<^verbatim>\<open>input_mat[r][c]\<close> for
  \<open>r < n\<close> and \<open>c < p\<close> and write \<^verbatim>\<open>a_matrix[r * p + c]\<close>; an index outside a vector is
  undefined behaviour in the source and the error \<^const>\<open>OutOfBounds\<close> here.
\<close>

definition copy_cell ::
  "nat \<Rightarrow> fp list list \<Rightarrow> nat \<Rightarrow> nat \<Rightarrow> error + fp list \<Rightarrow> error + fp list" where
  "copy_cell p input_mat r c acc =
     (case acc of
        Inl e \<Rightarrow> Inl e
      | Inr a \<Rightarrow>
          if r < length input_mat \<and> c < length (input_mat ! r) \<and> r * p + c < length a
          then Inr (a[r * p + c := input_mat ! r ! c])
          else Inl OutOfBounds)"

definition copy_input ::
  "nat \<Rightarrow> nat \<Rightarrow> fp list list \<Rightarrow> fp list \<Rightarrow> error + fp list" where
  "copy_input n p input_mat a =
     fold (\<lambda>r acc. fold (\<lambda>c acc. copy_cell p input_mat r c acc) [0..<p] acc) [0..<n] (Inr a)"

definition GoldenPCA ::
  "fformat \<Rightarrow> nat \<Rightarrow> nat \<Rightarrow> nat \<Rightarrow> bool \<Rightarrow> bool \<Rightarrow> fp list list \<Rightarrow> error + golden_pca" where
  "GoldenPCA T n p count d benchmark input_mat =
     (case copy_input n p input_mat (replicate (n * p * count) (Fin False 0)) of
        Inl e \<Rightarrow> Inl e
      | Inr a \<Rightarrow>
          Inr \<lparr>samples = n, features = p, matrix_count = count, debug = d,
               benchmark_mode = benchmark, a_matrix = a,
               covariance_matrix = replicate (p * p * count) (Fin False 0),
               eigenvalues = replicate (p * count) (Fin False 0),
               eigenvectors = replicate (p * p * count) (Fin False 0),
               iterations = replicate count (Fin False 0),
               cout = []\<rparr>)"

text \<open>
  The data model's batch entry \<open>m\<close> of the sample storage: the \<open>samples * features\<close>
  values from offset \<open>m * samples * features\<close>, which is \<^verbatim>\<open>a_matrix_offset\<close> in
  \<^verbatim>\<open>ComputeCovarianceIthMatrix\<close>.
\<close>

definition batch_entry :: "golden_pca \<Rightarrow> nat \<Rightarrow> fp list" where
  "batch_entry st m =
     take (samples st * features st) (drop (m * samples st * features st) (a_matrix st))"

subsection \<open>The covariance matrices\<close>

text \<open>\<^verbatim>\<open>if (debug) std::cout << ...\<close>\<close>

definition dbg :: "token list \<Rightarrow> golden_pca \<Rightarrow> golden_pca" where
  "dbg ts st = (if debug st then st\<lparr>cout := cout st @ ts\<rparr> else st)"

text \<open>
  The innermost loop: the product of two elements is a product in \<^verbatim>\<open>T\<close>, converted to
  \<^verbatim>\<open>double\<close> and added to the accumulator \<^verbatim>\<open>double dot_product\<close>.
\<close>

definition dot_product :: "fformat \<Rightarrow> golden_pca \<Rightarrow> nat \<Rightarrow> nat \<Rightarrow> nat \<Rightarrow> fp" where
  "dot_product T st a_matrix_offset row column =
     fold (\<lambda>k acc. fadd binary64 acc
              (fcvt binary64
                 (fmul T (a_matrix st ! (a_matrix_offset + k * features st + row))
                         (a_matrix st ! (a_matrix_offset + k * features st + column)))))
          [0..<samples st] (fof_int binary64 0)"

definition cov_cell :: "fformat \<Rightarrow> nat \<Rightarrow> nat \<Rightarrow> nat \<Rightarrow> nat \<Rightarrow> golden_pca \<Rightarrow> golden_pca" where
  "cov_cell T a_matrix_offset matrix_c_offset row column st =
     (let i = matrix_c_offset + row * features st + column;
          st1 = st\<lparr>covariance_matrix :=
                     (covariance_matrix st)[i := fcvt T (dot_product T st a_matrix_offset row column)]\<rparr>
      in dbg [Value (covariance_matrix st1 ! i), Text '' ''] st1)"

definition cov_row :: "fformat \<Rightarrow> nat \<Rightarrow> nat \<Rightarrow> nat \<Rightarrow> golden_pca \<Rightarrow> golden_pca" where
  "cov_row T a_matrix_offset matrix_c_offset row st =
     dbg [Endl]
       (fold (cov_cell T a_matrix_offset matrix_c_offset row) [0..<features st] st)"

text \<open>The closing \<^verbatim>\<open>if (debug)\<close> block, which prints the matrix once more.\<close>

definition print_cov_row :: "nat \<Rightarrow> nat \<Rightarrow> golden_pca \<Rightarrow> golden_pca" where
  "print_cov_row matrix_c_offset row st =
     (let st1 = fold (\<lambda>column s. s\<lparr>cout := cout s @
                       [Value (covariance_matrix s ! (matrix_c_offset + row * features s + column)),
                        Text '' '']\<rparr>) [0..<features st] st
      in if row \<noteq> features st - 1 then st1\<lparr>cout := cout st1 @ [Text ''; '']\<rparr> else st1)"

definition print_cov :: "nat \<Rightarrow> golden_pca \<Rightarrow> golden_pca" where
  "print_cov matrix_c_offset st =
     (if debug st
      then (let st1 = st\<lparr>cout := cout st @ [Text ''Cov=['']\<rparr>;
                st2 = fold (print_cov_row matrix_c_offset) [0..<features st] st1
            in st2\<lparr>cout := cout st2 @ [Text '']'', Endl]\<rparr>)
      else st)"

definition ComputeCovarianceIthMatrix :: "fformat \<Rightarrow> nat \<Rightarrow> golden_pca \<Rightarrow> golden_pca" where
  "ComputeCovarianceIthMatrix T matrix_index st =
     (let st1 = dbg [Text ''\<newline>Covariance matrix #'', Index matrix_index, Endl] st;
          a_matrix_offset = matrix_index * samples st * features st;
          matrix_c_offset = matrix_index * features st * features st;
          st2 = fold (cov_row T a_matrix_offset matrix_c_offset) [0..<features st] st1
      in print_cov matrix_c_offset st2)"

definition ComputeCovarianceMatrix :: "fformat \<Rightarrow> golden_pca \<Rightarrow> golden_pca" where
  "ComputeCovarianceMatrix T st =
     fold (ComputeCovarianceIthMatrix T) [0..<matrix_count st] st"

subsection \<open>The eigenvalues and eigenvectors: one QR iteration\<close>

text \<open>
  \<^verbatim>\<open>constexpr float kZeroThreshold = 1e-8\<close>: the literal is a \<^verbatim>\<open>double\<close>, narrowed to
  \<^verbatim>\<open>float\<close>; a comparison with a \<^verbatim>\<open>double\<close> widens it again.
\<close>

definition kZeroThreshold :: fp where
  "kZeroThreshold = fcvt binary32 (flit binary64 (1 / 100000000))"

definition below_threshold :: "fp \<Rightarrow> bool" where
  "below_threshold x = flt (fabs x) (fcvt binary64 kZeroThreshold)"

text \<open>
  The variables of the \<^verbatim>\<open>while\<close> loop: the local matrices \<^verbatim>\<open>rq\<close>, \<^verbatim>\<open>q\<close> and \<^verbatim>\<open>r\<close>, the
  member \<^verbatim>\<open>eigenvectors\<close> (the loop writes it), the local counter \<^verbatim>\<open>iterations\<close> and
  the flag \<^verbatim>\<open>converged\<close>.
\<close>

record qr_vars =
  rq :: "fp list"
  q_mat :: "fp list"
  r_mat :: "fp list"
  evecs :: "fp list"
  iters :: nat
  converged :: bool

text \<open>
  The search for the row of the shift: \<^verbatim>\<open>row\<close> runs from \<open>features - 1\<close> down to \<open>1\<close>,
  the loop leaves at the first row with an entry left of the diagonal that is not below
  the threshold, and \<^verbatim>\<open>shift_row\<close> (which may end at \<open>-1\<close>) is decremented otherwise.
\<close>

definition row_is_zero :: "nat \<Rightarrow> fp list \<Rightarrow> nat \<Rightarrow> bool" where
  "row_is_zero f m row =
     fold (\<lambda>col z. z \<and> below_threshold (m ! (row * f + col))) [0..<row] True"

fun find_shift_row :: "nat \<Rightarrow> fp list \<Rightarrow> nat \<Rightarrow> int \<Rightarrow> int" where
  "find_shift_row f m 0 shift_row = shift_row"
| "find_shift_row f m (Suc n) shift_row =
     (if \<not> row_is_zero f m (Suc n) then shift_row
      else find_shift_row f m n (shift_row - 1))"

text \<open>
  The shift from \<^verbatim>\<open>a\<close>, \<^verbatim>\<open>b\<close> and \<^verbatim>\<open>c\<close>, statement by statement. \<^verbatim>\<open>abs(d)\<close> is the
  \<^verbatim>\<open>double\<close> overload that \<^verbatim>\<open><math.h>\<close> declares in C++.
\<close>

definition compute_shift :: "fp \<Rightarrow> fp \<Rightarrow> fp \<Rightarrow> fp" where
  "compute_shift a b c =
     (let d = fdiv binary64 (fsub binary64 a c) (fof_int binary64 2);
          b_squared = fmul binary64 b b;
          d_squared = fmul binary64 d d;
          b_squared_signed = (if flt d (fof_int binary64 0) then fneg b_squared else b_squared)
      in fsub binary64 c
           (fdiv binary64 b_squared_signed
              (fadd binary64 (fabs d) (fsqrt binary64 (fadd binary64 d_squared b_squared)))))"

definition shift_value :: "nat \<Rightarrow> qr_vars \<Rightarrow> fp" where
  "shift_value f v =
     (let shift_row = find_shift_row f (rq v) (f - 1) (int f - 2);
          s = (if 0 \<le> shift_row
               then (let sr = nat shift_row
                     in compute_shift (rq v ! (sr + f * sr)) (rq v ! (sr + f * (sr + 1)))
                          (rq v ! ((sr + 1) + f * (sr + 1))))
               else fof_int binary64 0)
      in if iters v = 0 then fof_int binary64 0 else fmul binary64 s (flit binary64 (99 / 100)))"

text \<open>Subtracting the shift from the diagonal, and adding it back.\<close>

definition sub_diag :: "nat \<Rightarrow> fp \<Rightarrow> fp list \<Rightarrow> fp list" where
  "sub_diag f s m =
     fold (\<lambda>row m. m[row + f * row := fsub binary64 (m ! (row + f * row)) s]) [0..<f] m"

definition add_diag :: "nat \<Rightarrow> fp \<Rightarrow> fp list \<Rightarrow> fp list" where
  "add_diag f s m =
     fold (\<lambda>row m. m[row + f * row := fadd binary64 (m ! (row + f * row)) s]) [0..<f] m"

definition clear_mat :: "nat \<Rightarrow> fp list \<Rightarrow> fp list" where
  "clear_mat f m =
     fold (\<lambda>row m. fold (\<lambda>column m. m[row * f + column := fof_int binary64 0]) [0..<f] m)
          [0..<f] m"

text \<open>
  The QR decomposition by Gram-Schmidt, column \<open>i\<close>: the norm of the column of \<^verbatim>\<open>rq\<close>,
  the division of the column by the norm (there is no test for a norm of zero), and
  for each later column \<open>j\<close> the projection, which updates \<^verbatim>\<open>rq\<close> in place.
\<close>

definition col_norm :: "nat \<Rightarrow> fp list \<Rightarrow> nat \<Rightarrow> fp" where
  "col_norm f m i =
     fold (\<lambda>k norm. fadd binary64 norm (fmul binary64 (m ! (k * f + i)) (m ! (k * f + i))))
          [0..<f] (fof_int binary64 0)"

definition normalize_col :: "nat \<Rightarrow> fp list \<Rightarrow> nat \<Rightarrow> fp \<Rightarrow> fp list \<Rightarrow> fp list" where
  "normalize_col f m i rii qm =
     fold (\<lambda>k qm. qm[k * f + i := fdiv binary64 (m ! (k * f + i)) rii]) [0..<f] qm"

definition col_dot :: "nat \<Rightarrow> fp list \<Rightarrow> nat \<Rightarrow> fp list \<Rightarrow> nat \<Rightarrow> fp" where
  "col_dot f qm i m j =
     fold (\<lambda>k dp. fadd binary64 dp (fmul binary64 (qm ! (k * f + i)) (m ! (k * f + j))))
          [0..<f] (fof_int binary64 0)"

definition project_col :: "nat \<Rightarrow> fp list \<Rightarrow> nat \<Rightarrow> nat \<Rightarrow> fp list \<times> fp list \<Rightarrow> fp list \<times> fp list" where
  "project_col f qm i j mr =
     (let m = fst mr; rm = snd mr;
          dp = col_dot f qm i m j;
          rm1 = rm[i * f + j := dp];
          m1 = fold (\<lambda>k m. m[k * f + j := fsub binary64 (m ! (k * f + j))
                                               (fmul binary64 dp (qm ! (k * f + i)))])
                    [0..<f] m
      in (m1, rm1))"

definition gs_column :: "nat \<Rightarrow> nat \<Rightarrow> qr_vars \<Rightarrow> qr_vars" where
  "gs_column f i v =
     (let rii = fsqrt binary64 (col_norm f (rq v) i);
          rm1 = (r_mat v)[i * f + i := rii];
          qm1 = normalize_col f (rq v) i rii (q_mat v);
          mr = fold (project_col f qm1 i) [i + 1..<f] (rq v, rm1)
      in v\<lparr>rq := fst mr, q_mat := qm1, r_mat := snd mr\<rparr>)"

text \<open>
  The product of the eigenvectors (elements of \<^verbatim>\<open>T\<close>, widened) with \<^verbatim>\<open>q\<close>, accumulated
  in \<^verbatim>\<open>double\<close> and stored in the temporary vector of \<^verbatim>\<open>T\<close>, then copied back.
\<close>

definition evec_cell :: "fformat \<Rightarrow> nat \<Rightarrow> nat \<Rightarrow> qr_vars \<Rightarrow> nat \<Rightarrow> nat \<Rightarrow> fp" where
  "evec_cell T f offset v row col =
     fcvt T (fold (\<lambda>k prod. fadd binary64 prod
                     (fmul binary64 (fcvt binary64 (evecs v ! (offset + row * f + k)))
                                    (q_mat v ! (k * f + col))))
                  [0..<f] (fof_int binary64 0))"

definition eigenvectors_q_product :: "fformat \<Rightarrow> nat \<Rightarrow> nat \<Rightarrow> qr_vars \<Rightarrow> fp list" where
  "eigenvectors_q_product T f offset v =
     fold (\<lambda>row p. fold (\<lambda>col p. p[row * f + col := evec_cell T f offset v row col]) [0..<f] p)
          [0..<f] (replicate (f * f) (Fin False 0))"

definition store_evecs :: "nat \<Rightarrow> nat \<Rightarrow> fp list \<Rightarrow> fp list \<Rightarrow> fp list" where
  "store_evecs f offset p ev =
     fold (\<lambda>row ev. fold (\<lambda>col ev. ev[offset + row * f + col := p ! (row * f + col)]) [0..<f] ev)
          [0..<f] ev"

text \<open>\<^verbatim>\<open>rq\<close> becomes the product of \<^verbatim>\<open>r\<close> and \<^verbatim>\<open>q\<close>.\<close>

definition rq_cell :: "nat \<Rightarrow> qr_vars \<Rightarrow> nat \<Rightarrow> nat \<Rightarrow> fp" where
  "rq_cell f v row col =
     fold (\<lambda>k prod. fadd binary64 prod
             (fmul binary64 (r_mat v ! (row * f + k)) (q_mat v ! (k * f + col))))
          [0..<f] (fof_int binary64 0)"

definition recompose :: "nat \<Rightarrow> qr_vars \<Rightarrow> fp list" where
  "recompose f v =
     fold (\<lambda>row m. fold (\<lambda>col m. m[row * f + col := rq_cell f v row col]) [0..<f] m)
          [0..<f] (rq v)"

text \<open>The test for convergence: every entry below the diagonal is below the threshold.\<close>

definition all_below_threshold :: "nat \<Rightarrow> fp list \<Rightarrow> bool" where
  "all_below_threshold f m =
     fold (\<lambda>row z. fold (\<lambda>col z. z \<and> below_threshold (m ! (row * f + col))) [0..<row] z)
          [1..<f] True"

text \<open>
  The body of the \<^verbatim>\<open>while\<close> loop up to and including \<^verbatim>\<open>iterations++\<close>; the test of the
  limit, which follows it in the source, is in \<open>qr_while\<close> below.
\<close>

definition qr_iteration :: "fformat \<Rightarrow> nat \<Rightarrow> nat \<Rightarrow> qr_vars \<Rightarrow> qr_vars" where
  "qr_iteration T f offset v =
     (let s = shift_value f v;
          v1 = v\<lparr>rq := sub_diag f s (rq v)\<rparr>;
          v2 = v1\<lparr>r_mat := clear_mat f (r_mat v1), q_mat := clear_mat f (q_mat v1)\<rparr>;
          v3 = fold (gs_column f) [0..<f] v2;
          v4 = v3\<lparr>evecs := store_evecs f offset (eigenvectors_q_product T f offset v3) (evecs v3)\<rparr>;
          v5 = v4\<lparr>rq := recompose f v4\<rparr>;
          v6 = v5\<lparr>rq := add_diag f s (rq v5)\<rparr>
      in v6\<lparr>converged := all_below_threshold f (rq v6), iters := iters v6 + 1\<rparr>)"

subsection \<open>The loop and the solve of one matrix\<close>

text \<open>
  \<^verbatim>\<open>while (!converged) { ...; iterations++; if (iterations > features * features * 16
  && !benchmark_mode) { std::cout << ...; break; } }\<close>. The loop need not end, so it is a
  partial function: \<open>None\<close> is a run that never leaves the loop. The result carries the
  variables at the exit and whether the exit was the \<^verbatim>\<open>break\<close>, which is when the
  message is written. The counter is not bounded here; in the source it is an \<^verbatim>\<open>int\<close>.
\<close>

partial_function (option) qr_while ::
  "fformat \<Rightarrow> nat \<Rightarrow> nat \<Rightarrow> bool \<Rightarrow> qr_vars \<Rightarrow> (qr_vars \<times> bool) option" where
  "qr_while T f offset benchmark v =
     (if converged v then Some (v, False)
      else (let v1 = qr_iteration T f offset v
            in if f * f * 16 < iters v1 \<and> \<not> benchmark then Some (v1, True)
               else qr_while T f offset benchmark v1))"

text \<open>
  The variables before the loop: \<^verbatim>\<open>rq\<close> is the covariance matrix, widened; the block
  of \<^verbatim>\<open>eigenvectors\<close> is the identity matrix.
\<close>

definition load_rq :: "nat \<Rightarrow> nat \<Rightarrow> fp list \<Rightarrow> fp list" where
  "load_rq f offset cov =
     fold (\<lambda>k m. m[k := fcvt binary64 (cov ! (offset + k))]) [0..<f * f]
          (replicate (f * f) (Fin False 0))"

definition identity_evecs :: "fformat \<Rightarrow> nat \<Rightarrow> nat \<Rightarrow> fp list \<Rightarrow> fp list" where
  "identity_evecs T f offset ev =
     fold (\<lambda>row ev. fold (\<lambda>column ev.
             ev[offset + row * f + column := fof_int T (if row = column then 1 else 0)])
           [0..<f] ev) [0..<f] ev"

definition init_vars :: "fformat \<Rightarrow> nat \<Rightarrow> golden_pca \<Rightarrow> qr_vars" where
  "init_vars T offset st =
     \<lparr>rq = load_rq (features st) offset (covariance_matrix st),
      q_mat = replicate (features st * features st) (Fin False 0),
      r_mat = replicate (features st * features st) (Fin False 0),
      evecs = identity_evecs T (features st) offset (eigenvectors st),
      iters = 0, converged = False\<rparr>"

text \<open>What follows the loop: the counter and the diagonal of \<^verbatim>\<open>rq\<close> are stored.\<close>

definition store_eigenvalue :: "fformat \<Rightarrow> nat \<Rightarrow> fp list \<Rightarrow> nat \<Rightarrow> golden_pca \<Rightarrow> golden_pca" where
  "store_eigenvalue T matrix_index m k st =
     dbg [Value (m ! (k + features st * k)), Text '' '']
       (st\<lparr>eigenvalues := (eigenvalues st)[k + matrix_index * features st :=
                              fcvt T (m ! (k + features st * k))]\<rparr>)"

definition print_evec_row :: "nat \<Rightarrow> nat \<Rightarrow> golden_pca \<Rightarrow> golden_pca" where
  "print_evec_row offset row st =
     (let st1 = fold (\<lambda>col s. s\<lparr>cout := cout s @
                       [Value (eigenvectors s ! (offset + row * features s + col)), Text '' '']\<rparr>)
                     [0..<features st] st
      in st1\<lparr>cout := cout st1 @ [Endl]\<rparr>)"

definition print_evecs :: "nat \<Rightarrow> nat \<Rightarrow> golden_pca \<Rightarrow> golden_pca" where
  "print_evecs matrix_index offset st =
     (if debug st
      then (let st1 = st\<lparr>cout := cout st @
                         [Text ''Eigenvectors for matrix #'', Index matrix_index, Endl]\<rparr>;
                st2 = fold (print_evec_row offset) [0..<features st] st1
            in st2\<lparr>cout := cout st2 @ [Endl]\<rparr>)
      else st)"

definition report :: "fformat \<Rightarrow> nat \<Rightarrow> nat \<Rightarrow> qr_vars \<times> bool \<Rightarrow> golden_pca \<Rightarrow> golden_pca" where
  "report T matrix_index offset res st =
     (let v = fst res;
          st1 = st\<lparr>eigenvectors := evecs v\<rparr>;
          st2 = (if snd res then st1\<lparr>cout := cout st1 @ [Text ''Number of iterations too high'', Endl]\<rparr>
                 else st1);
          st3 = dbg [Text ''QR iteration stopped after '', Index (iters v),
                     Text '' iterations'', Endl] st2;
          st4 = st3\<lparr>iterations := (iterations st3)[matrix_index := fof_int T (int (iters v))]\<rparr>;
          st5 = dbg [Text ''Eigenvalues for matrix #'', Index matrix_index, Endl] st4;
          st6 = fold (store_eigenvalue T matrix_index (rq v)) [0..<features st5] st5;
          st7 = dbg [Endl] st6
      in print_evecs matrix_index offset st7)"

text \<open>The body of the loop over the matrices.\<close>

definition solve_matrix :: "fformat \<Rightarrow> nat \<Rightarrow> golden_pca \<Rightarrow> golden_pca option" where
  "solve_matrix T matrix_index st =
     (let st1 = dbg [Text ''\<newline>Computing Eigenvalues and vectors of matrix #'',
                     Index matrix_index, Endl] st;
          offset = matrix_index * features st * features st
      in case qr_while T (features st) offset (benchmark_mode st) (init_vars T offset st1) of
           None \<Rightarrow> None
         | Some res \<Rightarrow> Some (report T matrix_index offset res st1))"

definition ComputeEigenValuesAndVectors :: "fformat \<Rightarrow> golden_pca \<Rightarrow> golden_pca option" where
  "ComputeEigenValuesAndVectors T st =
     fold (\<lambda>matrix_index s. case s of None \<Rightarrow> None | Some s1 \<Rightarrow> solve_matrix T matrix_index s1)
          [0..<matrix_count st] (Some st)"

section \<open>Notions used in the statements\<close>

text \<open>
  Column \<open>c\<close> of the sample matrix of batch entry \<open>m\<close>, and the dot product of two
  vectors of \<^verbatim>\<open>T\<close> accumulated in \<^verbatim>\<open>double\<close>, as the specification describes the entries
  of a covariance matrix.
\<close>

definition sample_column :: "golden_pca \<Rightarrow> nat \<Rightarrow> nat \<Rightarrow> fp list" where
  "sample_column st m c =
     map (\<lambda>k. a_matrix st ! (m * samples st * features st + k * features st + c))
         [0..<samples st]"

definition dot_in_double :: "fformat \<Rightarrow> fp list \<Rightarrow> fp list \<Rightarrow> fp" where
  "dot_in_double T xs ys =
     foldl (\<lambda>acc xy. fadd binary64 acc (fcvt binary64 (fmul T (fst xy) (snd xy))))
           (Fin False 0) (zip xs ys)"

text \<open>
  Two states that differ in the stream only, and two states with the same input: the
  dimensions, the flags and the sample storage.
\<close>

definition cout_only :: "golden_pca \<Rightarrow> golden_pca \<Rightarrow> bool" where
  "cout_only st st' \<longleftrightarrow> st'\<lparr>cout := []\<rparr> = st\<lparr>cout := []\<rparr>"

definition same_input :: "golden_pca \<Rightarrow> golden_pca \<Rightarrow> bool" where
  "same_input st st' \<longleftrightarrow>
     samples st' = samples st \<and> features st' = features st \<and>
     matrix_count st' = matrix_count st \<and> debug st' = debug st \<and>
     benchmark_mode st' = benchmark_mode st \<and> a_matrix st' = a_matrix st"

text \<open>A state with one sample of two features, \<open>(1, 2)\<close>, for the examples.\<close>

definition one_by_two :: golden_pca where
  "one_by_two =
     \<lparr>samples = 1, features = 2, matrix_count = 1, debug = True, benchmark_mode = False,
      a_matrix = [Fin False 1, Fin False 2],
      covariance_matrix = replicate 4 (Fin False 0), eigenvalues = replicate 2 (Fin False 0),
      eigenvectors = replicate 4 (Fin False 0), iterations = replicate 1 (Fin False 0),
      cout = []\<rparr>"

text \<open>
  A state with the flag \<^verbatim>\<open>debug\<close> cleared and the stream emptied; the numerical outputs of
  a state; and the three public calls in the order a caller makes them, returning the
  numerical outputs, or \<open>None\<close> if the solve never returns.
\<close>

definition erase :: "golden_pca \<Rightarrow> golden_pca" where
  "erase st = st\<lparr>debug := False, cout := []\<rparr>"

definition numerical_outputs :: "golden_pca \<Rightarrow> fp list \<times> fp list \<times> fp list \<times> fp list" where
  "numerical_outputs st =
     (covariance_matrix st, eigenvalues st, eigenvectors st, iterations st)"

definition run ::
  "fformat \<Rightarrow> nat \<Rightarrow> nat \<Rightarrow> nat \<Rightarrow> bool \<Rightarrow> bool \<Rightarrow> fp list list \<Rightarrow>
     error + (fp list \<times> fp list \<times> fp list \<times> fp list) option" where
  "run T n p count d benchmark input_mat =
     (case GoldenPCA T n p count d benchmark input_mat of
        Inl e \<Rightarrow> Inl e
      | Inr st \<Rightarrow>
          Inr (map_option numerical_outputs
                 (ComputeEigenValuesAndVectors T (ComputeCovarianceMatrix T st))))"

text \<open>
  What \<^verbatim>\<open>ComputeEigenValuesAndVectors\<close> stores for matrix \<open>m\<close> when the loop ends by
  convergence with the variables \<open>v\<close>.
\<close>

definition converged_output :: "fformat \<Rightarrow> nat \<Rightarrow> qr_vars \<Rightarrow> golden_pca \<Rightarrow> golden_pca" where
  "converged_output T m v st =
     report T m (m * features st * features st) (v, False)
       (dbg [Text ''\<newline>Computing Eigenvalues and vectors of matrix #'', Index m, Endl] st)"

text \<open>
  The state after \<^verbatim>\<open>ComputeCovarianceMatrix\<close> for one sample \<open>(0, 0)\<close>: the covariance
  matrix is the zero matrix of size 2. With it, the variables of the loop once every
  element of \<^verbatim>\<open>rq\<close> and of the eigenvectors is NaN.
\<close>

definition zero_cov :: "bool \<Rightarrow> golden_pca" where
  "zero_cov benchmark =
     \<lparr>samples = 1, features = 2, matrix_count = 1, debug = False, benchmark_mode = benchmark,
      a_matrix = replicate 2 (Fin False 0), covariance_matrix = replicate 4 (Fin False 0),
      eigenvalues = replicate 2 (Fin False 0), eigenvectors = replicate 4 (Fin False 0),
      iterations = replicate 1 (Fin False 0), cout = []\<rparr>"

definition nan_vars :: "nat \<Rightarrow> qr_vars" where
  "nan_vars k =
     \<lparr>rq = replicate 4 NaN, q_mat = replicate 4 NaN, r_mat = [NaN, NaN, Fin False 0, NaN],
      evecs = replicate 4 NaN, iters = k, converged = False\<rparr>"

definition nan_like :: "qr_vars \<Rightarrow> bool" where
  "nan_like v \<longleftrightarrow>
     rq v = replicate 4 NaN \<and> evecs v = replicate 4 NaN \<and> length (q_mat v) = 4 \<and>
     length (r_mat v) = 4 \<and> 0 < iters v \<and> \<not> converged v"

text \<open>
  The state after \<^verbatim>\<open>ComputeCovarianceMatrix\<close> for the two samples \<open>(2, 0)\<close> and \<open>(0, 1)\<close>:
  the covariance matrix is \<open>diag(4, 1)\<close>.
\<close>

definition diag_4_1 :: "bool \<Rightarrow> golden_pca" where
  "diag_4_1 benchmark =
     \<lparr>samples = 2, features = 2, matrix_count = 1, debug = False, benchmark_mode = benchmark,
      a_matrix = [Fin False 2, Fin False 0, Fin False 0, Fin False 1],
      covariance_matrix = [Fin False 4, Fin False 0, Fin False 0, Fin False 1],
      eigenvalues = [Fin False 0, Fin False 0],
      eigenvectors = [Fin False 0, Fin False 0, Fin False 0, Fin False 0],
      iterations = [Fin False 0], cout = []\<rparr>"



text \<open>
  Three samples of three features, \<open>(1, 0, 0)\<close>, \<open>(1, 0, 1)\<close> and \<open>(0, s, 0)\<close>, where \<open>s\<close>
  is the \<^verbatim>\<open>double\<close> nearest to the square root of \<open>0.4\<close>; the state after
  \<^verbatim>\<open>ComputeCovarianceMatrix\<close> for them, where the covariance matrix has the rows
  \<open>(2, 0, 1)\<close>, \<open>(0, c, 0)\<close> and \<open>(1, 0, 1)\<close> with \<open>c\<close> the \<^verbatim>\<open>double\<close> nearest to \<open>0.4\<close>,
  and is positive definite; the variables of the loop after its first iteration; and the
  variables once every element of \<^verbatim>\<open>rq\<close> and of the eigenvectors is NaN.
\<close>

definition equal_diagonal_input :: "fp list list" where
  "equal_diagonal_input =
     [[Fin False 1, Fin False 0, Fin False 0],
      [Fin False 1, Fin False 0, Fin False 1],
      [Fin False 0, Fin False (5696652996790543 / 9007199254740992), Fin False 0]]"

definition equal_diagonal :: golden_pca where
  "equal_diagonal =
     \<lparr>samples = 3, features = 3, matrix_count = 1, debug = False, benchmark_mode = False,
      a_matrix = [Fin False 1, Fin False 0, Fin False 0,
                  Fin False 1, Fin False 0, Fin False 1,
                  Fin False 0, Fin False (5696652996790543 / 9007199254740992), Fin False 0],
      covariance_matrix = [Fin False 2, Fin False 0, Fin False 1,
                           Fin False 0, Fin False (3602879701896397 / 9007199254740992),
                           Fin False 0,
                           Fin False 1, Fin False 0, Fin False 1],
      eigenvalues = [Fin False 0, Fin False 0, Fin False 0],
      eigenvectors = [Fin False 0, Fin False 0, Fin False 0, Fin False 0, Fin False 0,
                      Fin False 0, Fin False 0, Fin False 0, Fin False 0],
      iterations = [Fin False 0], cout = []\<rparr>"

definition equal_diagonal_vars :: qr_vars where
  "equal_diagonal_vars =
     \<lparr>rq = [Fin False (5854679515581645 / 2251799813685248), Fin False 0,
            Fin False (1801439850948201 / 9007199254740992),
            Fin False 0, Fin False (3602879701896397 / 9007199254740992), Fin False 0,
            Fin False (7205759403792793 / 36028797018963968), Fin False 0,
            Fin False (3602879701896397 / 9007199254740992)],
      q_mat = [Fin False (8056283928194521 / 9007199254740992), Fin False 0,
               Fin True (1007035491024315 / 2251799813685248),
               Fin False 0, Fin False 1, Fin False 0,
               Fin False (8056283928194521 / 18014398509481984), Fin False 0,
               Fin False (4028141964097261 / 4503599627370496)],
      r_mat = [Fin False (629397181890197 / 281474976710656), Fin False 0,
               Fin False (6042212946145891 / 4503599627370496),
               Fin False 0, Fin False (3602879701896397 / 9007199254740992), Fin False 0,
               Fin False 0, Fin False 0, Fin False (8056283928194521 / 18014398509481984)],
      evecs = [Fin False (8056283928194521 / 9007199254740992), Fin False 0,
               Fin True (1007035491024315 / 2251799813685248),
               Fin False 0, Fin False 1, Fin False 0,
               Fin False (8056283928194521 / 18014398509481984), Fin False 0,
               Fin False (4028141964097261 / 4503599627370496)],
      iters = 1, converged = False\<rparr>"

definition nan_vars_3 :: "nat \<Rightarrow> qr_vars" where
  "nan_vars_3 k =
     \<lparr>rq = [NaN, NaN, NaN, NaN, NaN, NaN, NaN, NaN, NaN],
      q_mat = [NaN, NaN, NaN, NaN, NaN, NaN, NaN, NaN, NaN],
      r_mat = [NaN, NaN, NaN, Fin False 0, NaN, NaN, Fin False 0, Fin False 0, NaN],
      evecs = [NaN, NaN, NaN, NaN, NaN, NaN, NaN, NaN, NaN], iters = k, converged = False\<rparr>"

text \<open>
  A value that is a zero or NaN; a column of such values in a matrix of size \<open>f\<close>; a
  column of NaN in the block at \<open>offset\<close>; and what holds of the variables when the
  Gram-Schmidt loop reaches column \<open>j\<close>, for a column \<open>i\<close> of zeros.
\<close>

fun zn :: "fp \<Rightarrow> bool" where
  "zn NaN = True"
| "zn (Inf s) = False"
| "zn (Fin s x) = (x = 0)"

definition col_zn :: "nat \<Rightarrow> nat \<Rightarrow> fp list \<Rightarrow> bool" where
  "col_zn f i m \<longleftrightarrow> (\<forall>k<f. zn (m ! (k * f + i)))"

definition col_nan :: "nat \<Rightarrow> nat \<Rightarrow> nat \<Rightarrow> fp list \<Rightarrow> bool" where
  "col_nan f offset i m \<longleftrightarrow> (\<forall>k<f. m ! (offset + k * f + i) = NaN)"

definition gs_inv :: "nat \<Rightarrow> nat \<Rightarrow> nat \<Rightarrow> qr_vars \<Rightarrow> bool" where
  "gs_inv f i j v \<longleftrightarrow>
     length (rq v) = f * f \<and> length (q_mat v) = f * f \<and>
     (if j \<le> i then col_zn f i (rq v) else col_nan f 0 i (q_mat v))"

section \<open>Facts of the arithmetic\<close>

lemma round_to_0 [simp]: "round_to F s 0 = Fin s 0"
  by (simp add: round_to_def round_mag_def)

lemma fof_int_0 [simp]: "fof_int F 0 = Fin False 0"
  by (simp add: fof_int_def)

lemma fmul_commute: "fmul F x y = fmul F y x"
proof (cases x)
  case NaN
  then show ?thesis by (cases y) simp_all
next
  case (Inf s)
  then show ?thesis by (cases y) auto
next
  case (Fin s a)
  then show ?thesis
  proof (cases y)
    case (Fin t b)
    have "(s \<noteq> t) = (t \<noteq> s)" by auto
    with \<open>x = Fin s a\<close> Fin show ?thesis by (simp add: mult.commute)
  qed auto
qed

lemmas fp_eval = round_to_def round_mag_def ilog2_def ilog2n.simps rhe_def binary64_def
  binary32_def Let_def

text \<open>NaN is absorbing.\<close>

lemma fadd_NaN [simp]: "fadd F x NaN = NaN" by (cases x) simp_all
lemma fmul_NaN [simp]: "fmul F x NaN = NaN" by (cases x) simp_all
lemma fdiv_NaN [simp]: "fdiv F x NaN = NaN" by (cases x) simp_all
lemma fsub_NaN [simp]: "fsub F x NaN = NaN" "fsub F NaN y = NaN" by (simp_all add: fsub_def)

text \<open>Values of the arithmetic that the examples need.\<close>

lemma floor_rat_numeral [simp]: "\<lfloor>(numeral a :: rat) / numeral b\<rfloor> = numeral a div numeral b"
  using floor_divide_of_int_eq[of "numeral a" "numeral b", where ?'a = rat] by simp

lemma ceiling_rat_numeral [simp]:
  "\<lceil>(numeral a :: rat) / numeral b\<rceil> = - ((- numeral a) div numeral b)"
  using floor_divide_of_int_eq[of "- numeral a" "numeral b", where ?'a = rat]
  by (simp add: ceiling_def)

lemma arith_4:
  "round_to binary64 False 4 = Fin False 4"
  "round_to binary64 False 1 = Fin False 1"
  "round_to binary64 False 16 = Fin False 16"
  "sqrt_mag binary64 16 = 4"
  "sqrt_mag binary64 1 = 1"
  by (simp_all add: fp_eval sqrt_mag_def isqrt.simps)

lemma kZeroThreshold_value: "fcvt binary64 kZeroThreshold = Fin False (11258999 / 2 ^ 50)"
  by (simp add: kZeroThreshold_def flit_def fp_eval)

lemma below_threshold_zero [simp]: "below_threshold (Fin s 0)"
  by (simp add: below_threshold_def kZeroThreshold_value sval_def)

section \<open>Loops that fill a vector\<close>

lemma fold_update_row:
  assumes "b + k \<le> length m"
  shows "length (fold (\<lambda>c m. m[b + c := h c]) [0..<k] m) = length m \<and>
         (\<forall>i<length m. fold (\<lambda>c m. m[b + c := h c]) [0..<k] m ! i =
              (if b \<le> i \<and> i < b + k then h (i - b) else m ! i))"
  using assms
proof (induction k)
  case 0
  then show ?case by auto
next
  case (Suc k)
  let ?m1 = "fold (\<lambda>c m. m[b + c := h c]) [0..<k] m"
  from Suc have m1: "length ?m1 = length m"
    "\<forall>i<length m. ?m1 ! i = (if b \<le> i \<and> i < b + k then h (i - b) else m ! i)"
    by auto
  have step: "fold (\<lambda>c m. m[b + c := h c]) [0..<Suc k] m = ?m1[b + k := h k]"
    by simp
  have "?m1[b + k := h k] ! i = (if b \<le> i \<and> i < b + Suc k then h (i - b) else m ! i)"
    if i: "i < length m" for i
  proof (cases "i = b + k")
    case True
    with i m1(1) show ?thesis by simp
  next
    case False
    then have "?m1[b + k := h k] ! i = ?m1 ! i" by simp
    moreover have "(i < b + Suc k) = (i < b + k)" using False by auto
    ultimately show ?thesis using m1(2) i by simp
  qed
  with m1(1) show ?case unfolding step by simp
qed

lemma fold_update_matrix:
  assumes "b + k * f \<le> length m"
  shows "length (fold (\<lambda>row m. fold (\<lambda>col m. m[b + row * f + col := h row col]) [0..<f] m)
                      [0..<k] m) = length m \<and>
         (\<forall>i<length m.
            fold (\<lambda>row m. fold (\<lambda>col m. m[b + row * f + col := h row col]) [0..<f] m)
                 [0..<k] m ! i =
              (if b \<le> i \<and> i < b + k * f then h ((i - b) div f) ((i - b) mod f) else m ! i))"
  using assms
proof (induction k)
  case 0
  then show ?case by auto
next
  case (Suc k)
  let ?row = "\<lambda>row m. fold (\<lambda>col m. m[b + row * f + col := h row col]) [0..<f] m"
  let ?m1 = "fold ?row [0..<k] m"
  from Suc have m1: "length ?m1 = length m"
    "\<forall>i<length m. ?m1 ! i =
        (if b \<le> i \<and> i < b + k * f then h ((i - b) div f) ((i - b) mod f) else m ! i)"
    by auto
  have "b + k * f + f \<le> length ?m1" using Suc.prems m1(1) by simp
  from fold_update_row[OF this, of "h k"] have m2: "length (?row k ?m1) = length m"
    "\<forall>i<length m. ?row k ?m1 ! i =
        (if b + k * f \<le> i \<and> i < b + k * f + f then h k (i - (b + k * f)) else ?m1 ! i)"
    using m1(1) by auto
  have step: "fold ?row [0..<Suc k] m = ?row k ?m1" by simp
  have "?row k ?m1 ! i =
          (if b \<le> i \<and> i < b + Suc k * f then h ((i - b) div f) ((i - b) mod f) else m ! i)"
    if i: "i < length m" for i
  proof (cases "b + k * f \<le> i \<and> i < b + k * f + f")
    case True
    then have "k * f \<le> i - b" "i - b < k * f + f" by auto
    then have d: "(i - b) div f = k"
      by (intro div_nat_eqI) (simp_all add: algebra_simps)
    have "(i - b) mod f = (i - b) - ((i - b) div f) * f"
      by (simp add: minus_div_mult_eq_mod)
    with d have "(i - b) mod f = i - (b + k * f)" by simp
    with d True m2(2) i show ?thesis by simp
  next
    case False
    with m2(2) m1(2) i show ?thesis by auto
  qed
  with m2(1) show ?case unfolding step by simp
qed

lemma fold_update_matrix_at:
  assumes "b + k * f \<le> length m" "row < k" "col < f"
  shows "fold (\<lambda>row m. fold (\<lambda>col m. m[b + row * f + col := h row col]) [0..<f] m)
              [0..<k] m ! (b + row * f + col) = h row col"
proof -
  have "row * f + col < Suc row * f" using assms(3) by simp
  also have "\<dots> \<le> k * f" using assms(2) by (intro mult_le_mono1) simp
  finally have lt: "row * f + col < k * f" .
  then have "b + row * f + col < length m" using assms(1) by simp
  moreover have "(row * f + col) div f = row" "(row * f + col) mod f = col"
    using assms(3) by simp_all
  ultimately show ?thesis
    using fold_update_matrix[OF assms(1), of h] lt by (simp add: add.assoc)
qed


lemma fold_update_matrix_other:
  assumes "b + k * f \<le> length m" "i < length m" "i < b \<or> b + k * f \<le> i"
  shows "fold (\<lambda>row m. fold (\<lambda>col m. m[b + row * f + col := h row col]) [0..<f] m)
              [0..<k] m ! i = m ! i"
  using fold_update_matrix[OF assms(1), of h] assms(2,3) by auto

lemma fold_update_matrix_length:
  assumes "b + k * f \<le> length m"
  shows "length (fold (\<lambda>row m. fold (\<lambda>col m. m[b + row * f + col := h row col]) [0..<f] m)
              [0..<k] m) = length m"
  using fold_update_matrix[OF assms(1), of h] by simp

lemma block_index_less:
  assumes "m < k" "row < f" "col < (f::nat)"
  shows "m * f * f + row * f + col < k * f * f"
proof -
  have "row * f + col < Suc row * f" using assms(3) by simp
  also have "\<dots> \<le> f * f" using assms(2) by (intro mult_le_mono1) simp
  finally have "m * f * f + row * f + col < m * f * f + f * f" by simp
  also have "\<dots> = Suc m * (f * f)" by (simp add: algebra_simps)
  also have "\<dots> \<le> k * (f * f)" using assms(1) by (intro mult_le_mono1) simp
  finally show ?thesis by (simp add: algebra_simps)
qed

section \<open>The constructor copies one matrix\<close>

lemma copy_row:
  assumes "r < length input_mat" "k \<le> length (input_mat ! r)" "r * p + k \<le> length a"
  shows "\<exists>a'. fold (copy_cell p input_mat r) [0..<k] (Inr a) = Inr a' \<and> length a' = length a \<and>
           (\<forall>i<length a. a' ! i =
              (if r * p \<le> i \<and> i < r * p + k then input_mat ! r ! (i - r * p) else a ! i))"
  using assms
proof (induction k)
  case 0
  then show ?case by auto
next
  case (Suc k)
  then obtain a1 where a1: "fold (copy_cell p input_mat r) [0..<k] (Inr a) = Inr a1"
    "length a1 = length a"
    "\<forall>i<length a. a1 ! i =
        (if r * p \<le> i \<and> i < r * p + k then input_mat ! r ! (i - r * p) else a ! i)"
    by auto
  let ?a2 = "a1[r * p + k := input_mat ! r ! k]"
  have step: "fold (copy_cell p input_mat r) [0..<Suc k] (Inr a) = Inr ?a2"
    using a1(1,2) Suc.prems by (simp add: copy_cell_def)
  have "?a2 ! i =
        (if r * p \<le> i \<and> i < r * p + Suc k then input_mat ! r ! (i - r * p) else a ! i)"
    if i: "i < length a" for i
  proof (cases "i = r * p + k")
    case True
    with i a1(2) show ?thesis by simp
  next
    case False
    then have "?a2 ! i = a1 ! i" by simp
    moreover have "(i < r * p + Suc k) = (i < r * p + k)" using False by auto
    ultimately show ?thesis using a1(3) i by simp
  qed
  with step a1(2) show ?case by simp
qed

lemma copy_rows:
  assumes "m \<le> length input_mat" "\<forall>r<m. p \<le> length (input_mat ! r)" "m * p \<le> length a"
  shows "\<exists>a'. fold (\<lambda>r acc. fold (copy_cell p input_mat r) [0..<p] acc) [0..<m] (Inr a) = Inr a' \<and>
           length a' = length a \<and>
           (\<forall>i<length a. a' ! i =
              (if i < m * p then input_mat ! (i div p) ! (i mod p) else a ! i))"
  using assms
proof (induction m)
  case 0
  then show ?case by simp
next
  case (Suc m)
  then obtain a1 where a1:
    "fold (\<lambda>r acc. fold (copy_cell p input_mat r) [0..<p] acc) [0..<m] (Inr a) = Inr a1"
    "length a1 = length a"
    "\<forall>i<length a. a1 ! i = (if i < m * p then input_mat ! (i div p) ! (i mod p) else a ! i)"
    by auto
  have "m < length input_mat" "p \<le> length (input_mat ! m)" "m * p + p \<le> length a1"
    using Suc.prems a1(2) by auto
  from copy_row[OF this] obtain a2 where a2:
    "fold (copy_cell p input_mat m) [0..<p] (Inr a1) = Inr a2" "length a2 = length a1"
    "\<forall>i<length a1. a2 ! i =
        (if m * p \<le> i \<and> i < m * p + p then input_mat ! m ! (i - m * p) else a1 ! i)"
    by blast
  have step: "fold (\<lambda>r acc. fold (copy_cell p input_mat r) [0..<p] acc) [0..<Suc m] (Inr a) = Inr a2"
    using a1(1) a2(1) by simp
  have "a2 ! i = (if i < Suc m * p then input_mat ! (i div p) ! (i mod p) else a ! i)"
    if i: "i < length a" for i
  proof (cases "m * p \<le> i \<and> i < m * p + p")
    case True
    then have d: "i div p = m"
      by (intro div_nat_eqI) (simp_all add: algebra_simps)
    have "i mod p = i - (i div p) * p"
      by (simp add: minus_div_mult_eq_mod)
    with d have "i mod p = i - m * p" by simp
    with d True a2(3) a1(2) i show ?thesis by simp
  next
    case False
    with a2(3) a1(2,3) i show ?thesis by auto
  qed
  with step a1(2) a2(2) show ?case by simp
qed




lemma GoldenPCA_a_matrix:
  assumes "n \<le> length input_mat" "\<forall>r<n. p \<le> length (input_mat ! r)" "0 < count"
  shows "\<exists>st. GoldenPCA T n p count d b input_mat = Inr st \<and>
           samples st = n \<and> features st = p \<and> matrix_count st = count \<and>
           length (a_matrix st) = n * p * count \<and>
           (\<forall>i<n * p * count. a_matrix st ! i =
              (if i < n * p then input_mat ! (i div p) ! (i mod p) else Fin False 0))"
proof -
  have "n * p \<le> length (replicate (n * p * count) (Fin False 0))"
    using assms(3) by simp
  from copy_rows[OF assms(1,2) this] obtain a' where a':
    "copy_input n p input_mat (replicate (n * p * count) (Fin False 0)) = Inr a'"
    "length a' = n * p * count"
    "\<forall>i<n * p * count. a' ! i =
        (if i < n * p then input_mat ! (i div p) ! (i mod p)
         else replicate (n * p * count) (Fin False 0) ! i)"
    unfolding copy_input_def by auto
  from a'(3) have "\<forall>i<n * p * count. a' ! i =
        (if i < n * p then input_mat ! (i div p) ! (i mod p) else Fin False 0)"
    by simp
  with a'(1,2) show ?thesis by (simp add: GoldenPCA_def)
qed

text \<open>
  Claim C1, as the code has it. The constructor reads \<^verbatim>\<open>input_mat[r][c]\<close> for \<open>r < n\<close> and
  \<open>c < p\<close> only: the argument is one matrix, a vector of rows. Given at least \<open>n\<close> rows of
  at least \<open>p\<close> elements and a batch of at least one entry, the constructor returns; the
  storage has \<open>n * p * count\<close> elements; element \<open>r * p + c\<close> is \<^verbatim>\<open>input_mat[r][c]\<close>, so
  batch entry 0 is the argument in row-major order; and every batch entry after the
  first is all zeros, as \<^verbatim>\<open>resize\<close> left it.
\<close>

theorem Construct_copies_first_matrix:
  assumes "n \<le> length input_mat" "\<forall>r<n. p \<le> length (input_mat ! r)" "0 < count"
  shows "\<exists>st. GoldenPCA T n p count d b input_mat = Inr st \<and>
           length (a_matrix st) = n * p * count \<and>
           (\<forall>r<n. \<forall>c<p. a_matrix st ! (r * p + c) = input_mat ! r ! c) \<and>
           (\<forall>m. 0 < m \<and> m < count \<longrightarrow> batch_entry st m = replicate (n * p) (Fin False 0))"
proof -
  from GoldenPCA_a_matrix[OF assms] obtain st where st:
    "GoldenPCA T n p count d b input_mat = Inr st"
    "samples st = n" "features st = p" "matrix_count st = count"
    "length (a_matrix st) = n * p * count"
    "\<forall>i<n * p * count. a_matrix st ! i =
        (if i < n * p then input_mat ! (i div p) ! (i mod p) else Fin False 0)"
    by blast
  have first: "a_matrix st ! (r * p + c) = input_mat ! r ! c" if "r < n" "c < p" for r c
  proof -
    have "r * p + c < Suc r * p" using that(2) by simp
    also have "\<dots> \<le> n * p" using that(1) by (intro mult_le_mono1) simp
    finally have lt: "r * p + c < n * p" .
    also have "\<dots> \<le> n * p * count" using assms(3) by simp
    finally have "r * p + c < n * p * count" .
    moreover have "(r * p + c) div p = r" "(r * p + c) mod p = c"
      using that(2) by simp_all
    ultimately show ?thesis using st(6) lt by simp
  qed
  have rest: "batch_entry st m = replicate (n * p) (Fin False 0)" if "0 < m" "m < count" for m
  proof (rule nth_equalityI)
    have "Suc m * (n * p) \<le> count * (n * p)"
      using that(2) by (intro mult_le_mono1) simp
    then have le: "m * n * p + n * p \<le> n * p * count"
      by (simp add: algebra_simps)
    then show len: "length (batch_entry st m) = length (replicate (n * p) (Fin False 0))"
      using st(2,3,5) by (simp add: batch_entry_def)
    fix i assume "i < length (batch_entry st m)"
    with len have i: "i < n * p" by simp
    from that(1) obtain k where "m = Suc k" by (cases m) auto
    then have ge: "n * p \<le> m * n * p + i" by (simp add: algebra_simps)
    have lt: "m * n * p + i < n * p * count" using le i by simp
    have "m * n * p \<le> length (a_matrix st)" using le st(5) by linarith
    then have "batch_entry st m ! i = a_matrix st ! (m * n * p + i)"
      using i st(2,3) by (simp add: batch_entry_def)
    also have "\<dots> = Fin False 0" using st(6) ge lt by simp
    finally show "batch_entry st m ! i = replicate (n * p) (Fin False 0) ! i"
      using i by simp
  qed
  from st(1,5) first rest show ?thesis by blast
qed

text \<open>The hypotheses of C1 hold for one matrix of one row and two columns in a batch of two.\<close>

theorem Construct_copies_first_matrix_witness:
  "\<exists>st. GoldenPCA binary32 1 2 2 False False [[Fin False 1, Fin False 2]] = Inr st \<and>
     length (a_matrix st) = 1 * 2 * 2 \<and>
     (\<forall>r<1. \<forall>c<2. a_matrix st ! (r * 2 + c) = [[Fin False 1, Fin False 2]] ! r ! c) \<and>
     (\<forall>m. 0 < m \<and> m < 2 \<longrightarrow> batch_entry st m = replicate (1 * 2) (Fin False 0))"
  using Construct_copies_first_matrix[of 1 "[[Fin False 1, Fin False 2]]" 2 2 binary32 False False]
  by simp

lemma GoldenPCA_example:
  "GoldenPCA T 1 1 2 d b [[x], [y]] =
     Inr \<lparr>samples = 1, features = 1, matrix_count = 2, debug = d, benchmark_mode = b,
          a_matrix = [x, Fin False 0], covariance_matrix = [Fin False 0, Fin False 0],
          eigenvalues = [Fin False 0, Fin False 0], eigenvectors = [Fin False 0, Fin False 0],
          iterations = [Fin False 0, Fin False 0], cout = []\<rparr>"
  by (simp add: GoldenPCA_def copy_input_def copy_cell_def numeral_2_eq_2)

text \<open>
  Claim C1 as stated fails: with a batch of two matrices of one sample and one feature,
  \<open>[1]\<close> and \<open>[2]\<close>, batch entry 1 of the storage is \<open>[0]\<close>, not the second matrix.
\<close>

theorem Construct_second_matrix_counterexample:
  "\<not> isl (GoldenPCA binary32 1 1 2 False False [[Fin False 1], [Fin False 2]]) \<and>
   batch_entry (projr (GoldenPCA binary32 1 1 2 False False [[Fin False 1], [Fin False 2]])) 1
     = [Fin False 0] \<and>
   batch_entry (projr (GoldenPCA binary32 1 1 2 False False [[Fin False 1], [Fin False 2]])) 1
     \<noteq> [[Fin False 1], [Fin False 2]] ! 1"
  unfolding GoldenPCA_example by (simp add: batch_entry_def)


section \<open>The covariance matrices\<close>

lemma same_input_refl [simp]: "same_input st st"
  by (simp add: same_input_def)

lemma same_input_trans: "same_input st st1 \<Longrightarrow> same_input st1 st2 \<Longrightarrow> same_input st st2"
  by (simp add: same_input_def)

lemma same_input_dbg [simp]: "same_input st (dbg ts st')  = same_input st st'"
  by (simp add: same_input_def dbg_def)

lemma covariance_dbg [simp]: "covariance_matrix (dbg ts st) = covariance_matrix st"
  by (simp add: dbg_def)

lemma dot_product_same_input: "same_input st st' \<Longrightarrow> dot_product T st' = dot_product T st"
  by (intro ext) (simp add: same_input_def dot_product_def)

lemma cov_cell_same_input: "same_input st (cov_cell T ao co row c st)"
  by (simp add: cov_cell_def Let_def) (simp add: same_input_def)

lemma cov_cell_covariance:
  "covariance_matrix (cov_cell T ao co row c st) =
     (covariance_matrix st)[co + row * features st + c := fcvt T (dot_product T st ao row c)]"
  by (simp add: cov_cell_def Let_def)

lemma fold_cov_cell:
  "same_input st (fold (cov_cell T ao co row) [0..<k] st) \<and>
   covariance_matrix (fold (cov_cell T ao co row) [0..<k] st) =
     fold (\<lambda>c m. m[co + row * features st + c := fcvt T (dot_product T st ao row c)]) [0..<k]
          (covariance_matrix st)"
proof (induction k)
  case 0
  show ?case by simp
next
  case (Suc k)
  let ?st1 = "fold (cov_cell T ao co row) [0..<k] st"
  from Suc have si: "same_input st ?st1" by simp
  then have f: "features ?st1 = features st" by (simp add: same_input_def)
  have "same_input st (cov_cell T ao co row k ?st1)"
    using si cov_cell_same_input by (rule same_input_trans)
  then show ?case
    using Suc by (simp add: cov_cell_covariance f dot_product_same_input[OF si])
qed

lemma cov_row_fields:
  "same_input st (cov_row T ao co row st) \<and>
   covariance_matrix (cov_row T ao co row st) =
     fold (\<lambda>c m. m[co + row * features st + c := fcvt T (dot_product T st ao row c)])
          [0..<features st] (covariance_matrix st)"
  using fold_cov_cell[of st T ao co row "features st"] by (simp add: cov_row_def)

lemma fold_cov_row:
  "same_input st (fold (cov_row T ao co) [0..<k] st) \<and>
   covariance_matrix (fold (cov_row T ao co) [0..<k] st) =
     fold (\<lambda>row m. fold (\<lambda>c m. m[co + row * features st + c :=
                                   fcvt T (dot_product T st ao row c)]) [0..<features st] m)
          [0..<k] (covariance_matrix st)"
proof (induction k)
  case 0
  show ?case by simp
next
  case (Suc k)
  let ?st1 = "fold (cov_row T ao co) [0..<k] st"
  from Suc have si: "same_input st ?st1" by simp
  then have f: "features ?st1 = features st" by (simp add: same_input_def)
  have "same_input st (cov_row T ao co k ?st1)"
    using si cov_row_fields[of ?st1 T ao co k] by (blast intro: same_input_trans)
  then show ?case
    using Suc cov_row_fields[of ?st1 T ao co k]
    by (simp add: f dot_product_same_input[OF si])
qed

lemma cout_only_refl [simp]: "cout_only st st"
  by (simp add: cout_only_def)

lemma cout_only_update [simp]: "cout_only st (st'\<lparr>cout := ts\<rparr>) = cout_only st st'"
  by (simp add: cout_only_def)

lemma cout_only_trans: "cout_only st st1 \<Longrightarrow> cout_only st1 st2 \<Longrightarrow> cout_only st st2"
  by (simp add: cout_only_def)

lemma cout_only_fold:
  assumes "\<And>x s. cout_only s (g x s)"
  shows "cout_only st (fold g xs st)"
proof (induction xs arbitrary: st)
  case Nil
  show ?case by simp
next
  case (Cons x xs)
  have "cout_only st (g x st)" by (rule assms)
  moreover have "cout_only (g x st) (fold g xs (g x st))" by (rule Cons.IH)
  ultimately show ?case by (simp add: cout_only_trans)
qed

lemma cout_only_fields:
  assumes "cout_only st st'"
  shows "samples st' = samples st" "features st' = features st"
    "matrix_count st' = matrix_count st" "debug st' = debug st"
    "benchmark_mode st' = benchmark_mode st" "a_matrix st' = a_matrix st"
    "covariance_matrix st' = covariance_matrix st" "eigenvalues st' = eigenvalues st"
    "eigenvectors st' = eigenvectors st" "iterations st' = iterations st"
proof -
  from assms have e: "st'\<lparr>cout := []\<rparr> = st\<lparr>cout := []\<rparr>" by (simp add: cout_only_def)
  show "samples st' = samples st" using arg_cong[OF e, of samples] by simp
  show "features st' = features st" using arg_cong[OF e, of features] by simp
  show "matrix_count st' = matrix_count st" using arg_cong[OF e, of matrix_count] by simp
  show "debug st' = debug st" using arg_cong[OF e, of debug] by simp
  show "benchmark_mode st' = benchmark_mode st" using arg_cong[OF e, of benchmark_mode] by simp
  show "a_matrix st' = a_matrix st" using arg_cong[OF e, of a_matrix] by simp
  show "covariance_matrix st' = covariance_matrix st"
    using arg_cong[OF e, of covariance_matrix] by simp
  show "eigenvalues st' = eigenvalues st" using arg_cong[OF e, of eigenvalues] by simp
  show "eigenvectors st' = eigenvectors st" using arg_cong[OF e, of eigenvectors] by simp
  show "iterations st' = iterations st" using arg_cong[OF e, of iterations] by simp
qed

lemma cout_only_dbg [simp]: "cout_only st (dbg ts st') = cout_only st st'"
  by (simp add: dbg_def)

lemma print_cov_row_cout_only: "cout_only st (print_cov_row co row st)"
  by (simp add: print_cov_row_def Let_def cout_only_fold)

lemma print_cov_cout_only: "cout_only st (print_cov co st)"
proof (cases "debug st")
  case True
  let ?st1 = "st\<lparr>cout := cout st @ [Text ''Cov=['']\<rparr>"
  have "cout_only ?st1 (fold (print_cov_row co) [0..<features st] ?st1)"
    by (intro cout_only_fold print_cov_row_cout_only)
  moreover have "cout_only st ?st1" by simp
  ultimately have "cout_only st (fold (print_cov_row co) [0..<features st] ?st1)"
    by (blast intro: cout_only_trans)
  with True show ?thesis by (simp add: print_cov_def Let_def)
next
  case False
  then show ?thesis by (simp add: print_cov_def)
qed

lemma ComputeCovarianceIthMatrix_fields:
  "same_input st (ComputeCovarianceIthMatrix T m st) \<and>
   covariance_matrix (ComputeCovarianceIthMatrix T m st) =
     fold (\<lambda>row cm. fold (\<lambda>c cm. cm[m * features st * features st + row * features st + c :=
               fcvt T (dot_product T st (m * samples st * features st) row c)])
             [0..<features st] cm)
          [0..<features st] (covariance_matrix st)"
proof -
  let ?st1 = "dbg [Text ''\<newline>Covariance matrix #'', Index m, Endl] st"
  let ?st2 = "fold (cov_row T (m * samples st * features st) (m * features st * features st))
                   [0..<features st] ?st1"
  have si1: "same_input st ?st1" by simp
  have f1: "features ?st1 = features st" "samples ?st1 = samples st"
    "covariance_matrix ?st1 = covariance_matrix st"
    by (simp_all add: dbg_def)
  from fold_cov_row[of ?st1 T "m * samples st * features st" "m * features st * features st" "features st"]
  have st2a: "same_input ?st1 ?st2" and st2b: "covariance_matrix ?st2 =
     fold (\<lambda>row cm. fold (\<lambda>c cm. cm[m * features st * features st + row * features st + c :=
               fcvt T (dot_product T st (m * samples st * features st) row c)])
             [0..<features st] cm)
          [0..<features st] (covariance_matrix st)"
    by (simp_all add: f1 dot_product_same_input[OF si1])
  have st2: "same_input st ?st2" using si1 st2a by (rule same_input_trans)
  have co: "cout_only ?st2 (print_cov (m * features st * features st) ?st2)"
    by (rule print_cov_cout_only)
  have eq: "ComputeCovarianceIthMatrix T m st = print_cov (m * features st * features st) ?st2"
    by (simp add: ComputeCovarianceIthMatrix_def Let_def f1)
  show ?thesis
    unfolding eq using st2 st2b cout_only_fields[OF co] by (simp add: same_input_def)
qed


lemma fold_ComputeCovarianceIthMatrix:
  assumes "k * features st * features st \<le> length (covariance_matrix st)"
  shows "same_input st (fold (ComputeCovarianceIthMatrix T) [0..<k] st) \<and>
         length (covariance_matrix (fold (ComputeCovarianceIthMatrix T) [0..<k] st)) =
           length (covariance_matrix st) \<and>
         (\<forall>m<k. \<forall>row<features st. \<forall>col<features st.
            covariance_matrix (fold (ComputeCovarianceIthMatrix T) [0..<k] st) !
              (m * features st * features st + row * features st + col) =
            fcvt T (dot_product T st (m * samples st * features st) row col))"
  using assms
proof (induction k)
  case 0
  show ?case by simp
next
  case (Suc k)
  let ?f = "features st"
  let ?st1 = "fold (ComputeCovarianceIthMatrix T) [0..<k] st"
  let ?st2 = "ComputeCovarianceIthMatrix T k ?st1"
  let ?h = "\<lambda>row c. fcvt T (dot_product T st (k * samples st * ?f) row c)"
  have "k * ?f * ?f \<le> Suc k * ?f * ?f" by simp
  with Suc.prems have "k * ?f * ?f \<le> length (covariance_matrix st)" by linarith
  with Suc.IH have si: "same_input st ?st1"
    and len: "length (covariance_matrix ?st1) = length (covariance_matrix st)"
    and old: "\<forall>m<k. \<forall>row<?f. \<forall>col<?f.
            covariance_matrix ?st1 ! (m * ?f * ?f + row * ?f + col) =
            fcvt T (dot_product T st (m * samples st * ?f) row col)"
    by simp_all
  from si have f1: "features ?st1 = ?f" "samples ?st1 = samples st"
    by (simp_all add: same_input_def)
  have si2: "same_input st ?st2"
    using si ComputeCovarianceIthMatrix_fields[of ?st1 T k] by (blast intro: same_input_trans)
  have cov2: "covariance_matrix ?st2 =
     fold (\<lambda>row cm. fold (\<lambda>c cm. cm[k * ?f * ?f + row * ?f + c := ?h row c]) [0..<?f] cm)
          [0..<?f] (covariance_matrix ?st1)"
    using ComputeCovarianceIthMatrix_fields[of ?st1 T k]
    by (simp add: f1 dot_product_same_input[OF si])
  have fits: "k * ?f * ?f + ?f * ?f \<le> length (covariance_matrix ?st1)"
    using Suc.prems len by (simp add: algebra_simps)
  have len2: "length (covariance_matrix ?st2) = length (covariance_matrix st)"
    unfolding cov2 using fold_update_matrix_length[OF fits] len by simp
  have "covariance_matrix ?st2 ! (m * ?f * ?f + row * ?f + col) =
            fcvt T (dot_product T st (m * samples st * ?f) row col)"
    if m: "m < Suc k" and row: "row < ?f" and col: "col < ?f" for m row col
  proof (cases "m = k")
    case True
    show ?thesis
      unfolding cov2 True using fold_update_matrix_at[OF fits row col, of ?h] by simp
  next
    case False
    with m have mk: "m < k" by simp
    have lt: "m * ?f * ?f + row * ?f + col < k * ?f * ?f"
      using mk row col by (rule block_index_less)
    then have "m * ?f * ?f + row * ?f + col < length (covariance_matrix ?st1)"
      using fits by simp
    then have "covariance_matrix ?st2 ! (m * ?f * ?f + row * ?f + col) =
               covariance_matrix ?st1 ! (m * ?f * ?f + row * ?f + col)"
      unfolding cov2 using fold_update_matrix_other[OF fits, of _ ?h] lt by simp
    with old mk row col show ?thesis by simp
  qed
  with si2 len2 show ?case by simp
qed

lemma foldl_zip_map:
  "foldl (\<lambda>acc xy. g acc (fst xy) (snd xy)) a (zip (map u xs) (map v xs)) =
   fold (\<lambda>k acc. g acc (u k) (v k)) xs a"
  by (induction xs arbitrary: a) simp_all

lemma dot_product_columns:
  "dot_product T st (m * samples st * features st) row col =
   dot_in_double T (sample_column st m row) (sample_column st m col)"
  unfolding dot_product_def dot_in_double_def sample_column_def fof_int_0
  by (rule foldl_zip_map[of "\<lambda>acc x y. fadd binary64 acc (fcvt binary64 (fmul T x y))",
        symmetric])

lemma dot_product_commute: "dot_product T st ao row col = dot_product T st ao col row"
proof -
  have "(\<lambda>k acc. fadd binary64 acc (fcvt binary64
            (fmul T (a_matrix st ! (ao + k * features st + row))
                    (a_matrix st ! (ao + k * features st + col))))) =
        (\<lambda>k acc. fadd binary64 acc (fcvt binary64
            (fmul T (a_matrix st ! (ao + k * features st + col))
                    (a_matrix st ! (ao + k * features st + row)))))"
    by (intro ext) (simp add: fmul_commute[of T "a_matrix st ! (ao + _ * features st + row)"])
  then show ?thesis by (simp add: dot_product_def)
qed

text \<open>
  Claim C5. After \<^verbatim>\<open>ComputeCovarianceMatrix\<close>, the entry \<open>(row, col)\<close> of the covariance matrix
  of batch entry \<open>m\<close> is the dot product of column \<open>row\<close> and column \<open>col\<close> of the sample
  matrix of that entry: each product is taken in \<^verbatim>\<open>T\<close>, the sum is accumulated in
  \<^verbatim>\<open>double\<close> whatever \<^verbatim>\<open>T\<close> is, and the sum is stored as a \<^verbatim>\<open>T\<close>. Nothing divides by the
  number of samples.
\<close>

theorem covariance_is_column_dot_product:
  assumes "length (a_matrix st) = samples st * features st * matrix_count st"
    and "length (covariance_matrix st) = features st * features st * matrix_count st"
    and "m < matrix_count st" and "row < features st" and "col < features st"
  shows "covariance_matrix (ComputeCovarianceMatrix T st) !
           (m * features st * features st + row * features st + col) =
         fcvt T (dot_in_double T (sample_column st m row) (sample_column st m col))"
proof -
  have "matrix_count st * features st * features st \<le> length (covariance_matrix st)"
    using assms(2) by (simp add: algebra_simps)
  from fold_ComputeCovarianceIthMatrix[OF this, of T] assms(3,4,5)
  show ?thesis by (simp add: ComputeCovarianceMatrix_def dot_product_columns)
qed

text \<open>
  Claim C6. Every covariance matrix computed is symmetric, entry for entry and exactly:
  the entries \<open>(i, j)\<close> and \<open>(j, i)\<close> accumulate the same products in the same order,
  since the product of two elements does not depend on their order.
\<close>

theorem covariance_symmetric:
  assumes "length (a_matrix st) = samples st * features st * matrix_count st"
    and "length (covariance_matrix st) = features st * features st * matrix_count st"
    and "m < matrix_count st" and "i < features st" and "j < features st"
  shows "covariance_matrix (ComputeCovarianceMatrix T st) !
           (m * features st * features st + i * features st + j) =
         covariance_matrix (ComputeCovarianceMatrix T st) !
           (m * features st * features st + j * features st + i)"
proof -
  have "matrix_count st * features st * features st \<le> length (covariance_matrix st)"
    using assms(2) by (simp add: algebra_simps)
  from fold_ComputeCovarianceIthMatrix[OF this, of T] assms(3,4,5)
  show ?thesis
    by (simp add: ComputeCovarianceMatrix_def dot_product_commute[of T st _ i j])
qed


lemma one_by_two_fields:
  "samples one_by_two = 1" "features one_by_two = 2" "matrix_count one_by_two = 1"
  "a_matrix one_by_two = [Fin False 1, Fin False 2]"
  "length (covariance_matrix one_by_two) = 4"
  by (simp_all add: one_by_two_def)

text \<open>
  The hypotheses of C5 hold in the state with the one sample \<open>(1, 2)\<close>, where the entry
  \<open>(0, 1)\<close> is \<open>1 * 2\<close>.
\<close>

theorem covariance_is_column_dot_product_witness:
  "length (a_matrix one_by_two) =
     samples one_by_two * features one_by_two * matrix_count one_by_two \<and>
   length (covariance_matrix one_by_two) =
     features one_by_two * features one_by_two * matrix_count one_by_two \<and>
   0 < matrix_count one_by_two \<and> 0 < features one_by_two \<and> 1 < features one_by_two \<and>
   covariance_matrix (ComputeCovarianceMatrix binary64 one_by_two) ! 1 = Fin False 2"
proof -
  have h: "length (a_matrix one_by_two) =
     samples one_by_two * features one_by_two * matrix_count one_by_two"
    "length (covariance_matrix one_by_two) =
     features one_by_two * features one_by_two * matrix_count one_by_two"
    "0 < matrix_count one_by_two" "0 < features one_by_two" "1 < features one_by_two"
    by (simp_all add: one_by_two_fields)
  have "fcvt binary64 (dot_in_double binary64 (sample_column one_by_two 0 0)
          (sample_column one_by_two 0 1)) = Fin False 2"
    by (simp add: dot_in_double_def sample_column_def one_by_two_fields fp_eval sval_def)
  with covariance_is_column_dot_product[OF h, of binary64] h show ?thesis
    by (simp add: one_by_two_fields)
qed

text \<open>The hypotheses of C6 hold in the same state, for the entries \<open>(0, 1)\<close> and \<open>(1, 0)\<close>.\<close>

theorem covariance_symmetric_witness:
  "length (a_matrix one_by_two) =
     samples one_by_two * features one_by_two * matrix_count one_by_two \<and>
   length (covariance_matrix one_by_two) =
     features one_by_two * features one_by_two * matrix_count one_by_two \<and>
   0 < matrix_count one_by_two \<and> 0 < features one_by_two \<and> 1 < features one_by_two \<and>
   covariance_matrix (ComputeCovarianceMatrix binary64 one_by_two) ! 1 =
   covariance_matrix (ComputeCovarianceMatrix binary64 one_by_two) ! 2"
proof -
  have h: "length (a_matrix one_by_two) =
     samples one_by_two * features one_by_two * matrix_count one_by_two"
    "length (covariance_matrix one_by_two) =
     features one_by_two * features one_by_two * matrix_count one_by_two"
    "0 < matrix_count one_by_two" "0 < features one_by_two" "1 < features one_by_two"
    by (simp_all add: one_by_two_fields)
  from covariance_symmetric[OF h, of binary64] h show ?thesis
    by (simp add: one_by_two_fields numeral_2_eq_2)
qed

section \<open>The loop\<close>

lemma fold_gs_column_frame:
  "iters (fold (gs_column f) xs v) = iters v \<and> evecs (fold (gs_column f) xs v) = evecs v \<and>
   converged (fold (gs_column f) xs v) = converged v"
  by (induction xs arbitrary: v) (simp_all add: gs_column_def Let_def)

lemma iters_qr_iteration [simp]: "iters (qr_iteration T f offset v) = Suc (iters v)"
  by (simp add: qr_iteration_def Let_def fold_gs_column_frame)

lemma shift_value_first: "iters v = 0 \<Longrightarrow> shift_value f v = Fin False 0"
  by (simp add: shift_value_def Let_def)

text \<open>What holds at every exit of the loop.\<close>

lemma qr_while_exit:
  assumes run: "qr_while T f offset benchmark v = Some res"
  shows "iters v \<le> iters (fst res) \<and>
     (\<not> converged v \<longrightarrow> iters v < iters (fst res)) \<and>
     (snd res \<longrightarrow> \<not> benchmark \<and> f * f * 16 < iters (fst res)) \<and>
     (\<not> snd res \<longrightarrow> converged (fst res)) \<and>
     (\<not> benchmark \<and> iters v \<le> f * f * 16 \<longrightarrow> iters (fst res) \<le> f * f * 16 + 1)"
proof -
  define P where "P = (\<lambda>(T::fformat) f (offset::nat) benchmark (v::qr_vars) (res::qr_vars \<times> bool).
     iters v \<le> iters (fst res) \<and>
     (\<not> converged v \<longrightarrow> iters v < iters (fst res)) \<and>
     (snd res \<longrightarrow> \<not> benchmark \<and> f * f * 16 < iters (fst res)) \<and>
     (\<not> snd res \<longrightarrow> converged (fst res)) \<and>
     (\<not> benchmark \<and> iters v \<le> f * f * 16 \<longrightarrow> iters (fst res) \<le> f * f * 16 + 1))"
  have "P T f offset benchmark v res"
  proof (rule qr_while.raw_induct[where P = P, OF _ run])
    fix qr_while' T f offset benchmark v res
    assume IH: "\<And>T f offset benchmark v res.
        qr_while' T f offset benchmark v = Some res \<Longrightarrow> P T f offset benchmark v res"
      and eq: "(if converged v then Some (v, False)
         else let v1 = qr_iteration T f offset v
              in if f * f * 16 < iters v1 \<and> \<not> benchmark then Some (v1, True)
                 else qr_while' T f offset benchmark v1) = Some res"
    show "P T f offset benchmark v res"
    proof (cases "converged v")
      case True
      with eq have "res = (v, False)" by simp
      with True show ?thesis by (simp add: P_def)
    next
      case nc: False
      let ?v1 = "qr_iteration T f offset v"
      show ?thesis
      proof (cases "f * f * 16 < iters ?v1 \<and> \<not> benchmark")
        case True
        with nc eq have "res = (?v1, True)" by (simp add: Let_def)
        with True nc show ?thesis by (auto simp: P_def)
      next
        case False
        with nc eq have "qr_while' T f offset benchmark ?v1 = Some res"
          by (auto simp: Let_def split: if_splits)
        from IH[OF this] False nc show ?thesis by (auto simp: P_def)
      qed
    qed
  qed
  then show ?thesis by (simp add: P_def)
qed


text \<open>Outside benchmark mode the loop ends.\<close>

lemma qr_while_terminates:
  "\<exists>res. qr_while T f offset False v = Some res"
proof (induction "f * f * 16 + 1 - iters v" arbitrary: v rule: less_induct)
  case less
  show ?case
  proof (cases "converged v")
    case True
    then show ?thesis by (subst qr_while.simps) auto
  next
    case nc: False
    let ?v1 = "qr_iteration T f offset v"
    show ?thesis
    proof (cases "f * f * 16 < iters ?v1")
      case True
      with nc show ?thesis by (subst qr_while.simps) (auto simp: Let_def)
    next
      case False
      then have "f * f * 16 + 1 - iters ?v1 < f * f * 16 + 1 - iters v" by simp
      from less[OF this] obtain res where "qr_while T f offset False ?v1 = Some res" by blast
      with nc False show ?thesis by (subst qr_while.simps) (auto simp: Let_def)
    qed
  qed
qed


section \<open>What is stored after the loop\<close>

lemma init_vars_dbg [simp]: "init_vars T offset (dbg ts st) = init_vars T offset st"
  by (simp add: init_vars_def dbg_def)

lemma store_eigenvalue_fields:
  "samples (store_eigenvalue T m rqm k st) = samples st"
  "features (store_eigenvalue T m rqm k st) = features st"
  "matrix_count (store_eigenvalue T m rqm k st) = matrix_count st"
  "debug (store_eigenvalue T m rqm k st) = debug st"
  "benchmark_mode (store_eigenvalue T m rqm k st) = benchmark_mode st"
  "a_matrix (store_eigenvalue T m rqm k st) = a_matrix st"
  "covariance_matrix (store_eigenvalue T m rqm k st) = covariance_matrix st"
  "eigenvectors (store_eigenvalue T m rqm k st) = eigenvectors st"
  "iterations (store_eigenvalue T m rqm k st) = iterations st"
  "eigenvalues (store_eigenvalue T m rqm k st) =
     (eigenvalues st)[m * features st + k := fcvt T (rqm ! (k + features st * k))]"
  by (simp_all add: store_eigenvalue_def dbg_def add.commute)

lemma fold_store_eigenvalue:
  "samples (fold (store_eigenvalue T m rqm) [0..<n] st) = samples st \<and>
   features (fold (store_eigenvalue T m rqm) [0..<n] st) = features st \<and>
   matrix_count (fold (store_eigenvalue T m rqm) [0..<n] st) = matrix_count st \<and>
   debug (fold (store_eigenvalue T m rqm) [0..<n] st) = debug st \<and>
   benchmark_mode (fold (store_eigenvalue T m rqm) [0..<n] st) = benchmark_mode st \<and>
   a_matrix (fold (store_eigenvalue T m rqm) [0..<n] st) = a_matrix st \<and>
   covariance_matrix (fold (store_eigenvalue T m rqm) [0..<n] st) = covariance_matrix st \<and>
   eigenvectors (fold (store_eigenvalue T m rqm) [0..<n] st) = eigenvectors st \<and>
   iterations (fold (store_eigenvalue T m rqm) [0..<n] st) = iterations st \<and>
   eigenvalues (fold (store_eigenvalue T m rqm) [0..<n] st) =
     fold (\<lambda>k ev. ev[m * features st + k := fcvt T (rqm ! (k + features st * k))]) [0..<n]
          (eigenvalues st)"
  by (induction n) (simp_all add: store_eigenvalue_fields)

lemma print_evec_row_cout_only: "cout_only st (print_evec_row offset row st)"
  by (simp add: print_evec_row_def Let_def cout_only_fold)

lemma print_evecs_cout_only: "cout_only st (print_evecs m offset st)"
proof (cases "debug st")
  case True
  let ?st1 = "st\<lparr>cout := cout st @ [Text ''Eigenvectors for matrix #'', Index m, Endl]\<rparr>"
  have "cout_only ?st1 (fold (print_evec_row offset) [0..<features st] ?st1)"
    by (intro cout_only_fold print_evec_row_cout_only)
  moreover have "cout_only st ?st1" by simp
  ultimately have "cout_only st (fold (print_evec_row offset) [0..<features st] ?st1)"
    by (blast intro: cout_only_trans)
  with True show ?thesis by (simp add: print_evecs_def Let_def)
next
  case False
  then show ?thesis by (simp add: print_evecs_def)
qed

lemma dbg_fields [simp]:
  "samples (dbg ts st) = samples st" "features (dbg ts st) = features st"
  "matrix_count (dbg ts st) = matrix_count st" "debug (dbg ts st) = debug st"
  "benchmark_mode (dbg ts st) = benchmark_mode st" "a_matrix (dbg ts st) = a_matrix st"
  "eigenvalues (dbg ts st) = eigenvalues st" "eigenvectors (dbg ts st) = eigenvectors st"
  "iterations (dbg ts st) = iterations st"
  by (simp_all add: dbg_def)

text \<open>The state before the closing block that prints the eigenvectors.\<close>

lemma report_fields:
  "samples (report T m offset res st) = samples st"
  "features (report T m offset res st) = features st"
  "matrix_count (report T m offset res st) = matrix_count st"
  "debug (report T m offset res st) = debug st"
  "benchmark_mode (report T m offset res st) = benchmark_mode st"
  "a_matrix (report T m offset res st) = a_matrix st"
  "covariance_matrix (report T m offset res st) = covariance_matrix st"
  "eigenvectors (report T m offset res st) = evecs (fst res)"
  "iterations (report T m offset res st) =
     (iterations st)[m := fof_int T (int (iters (fst res)))]"
  "eigenvalues (report T m offset res st) =
     fold (\<lambda>k ev. ev[m * features st + k := fcvt T (rq (fst res) ! (k + features st * k))])
          [0..<features st] (eigenvalues st)"
  unfolding report_def Let_def
  by (simp_all add: cout_only_fields[OF print_evecs_cout_only] fold_store_eigenvalue)


section \<open>The solve of one matrix and of the batch\<close>

lemma init_vars_start [simp]:
  "iters (init_vars T offset st) = 0" "\<not> converged (init_vars T offset st)"
  by (simp_all add: init_vars_def)

lemma solve_matrix_Some:
  assumes "solve_matrix T m st = Some st'"
  shows "\<exists>res. qr_while T (features st) (m * features st * features st) (benchmark_mode st)
                 (init_vars T (m * features st * features st) st) = Some res \<and>
               st' = report T m (m * features st * features st) res
                       (dbg [Text ''\<newline>Computing Eigenvalues and vectors of matrix #'',
                             Index m, Endl] st)"
  using assms by (auto simp: solve_matrix_def Let_def split: option.splits)

lemma solve_matrix_frame:
  assumes "solve_matrix T m st = Some st'"
  shows "features st' = features st" "benchmark_mode st' = benchmark_mode st"
    "matrix_count st' = matrix_count st" "debug st' = debug st"
    "covariance_matrix st' = covariance_matrix st"
    "length (iterations st') = length (iterations st)"
  using solve_matrix_Some[OF assms] by (auto simp: report_fields)

lemma solve_matrix_iterations:
  assumes "solve_matrix T m st = Some st'"
  shows "\<exists>n. 0 < n \<and> (\<not> benchmark_mode st \<longrightarrow> n \<le> features st * features st * 16 + 1) \<and>
             iterations st' = (iterations st)[m := fof_int T (int n)]"
proof -
  from solve_matrix_Some[OF assms] obtain res where
    run: "qr_while T (features st) (m * features st * features st) (benchmark_mode st)
            (init_vars T (m * features st * features st) st) = Some res"
    and st': "st' = report T m (m * features st * features st) res
                       (dbg [Text ''\<newline>Computing Eigenvalues and vectors of matrix #'',
                             Index m, Endl] st)"
    by blast
  from qr_while_exit[OF run]
  have "0 < iters (fst res)"
    "\<not> benchmark_mode st \<longrightarrow> iters (fst res) \<le> features st * features st * 16 + 1"
    by simp_all
  moreover have "iterations st' = (iterations st)[m := fof_int T (int (iters (fst res)))]"
    unfolding st' by (simp add: report_fields)
  ultimately show ?thesis by blast
qed

lemma fold_solve_Some:
  assumes "fold (\<lambda>m s. case s of None \<Rightarrow> None | Some s1 \<Rightarrow> solve_matrix T m s1) [0..<Suc k]
             (Some st) = Some st'"
  shows "\<exists>st1. fold (\<lambda>m s. case s of None \<Rightarrow> None | Some s1 \<Rightarrow> solve_matrix T m s1) [0..<k]
             (Some st) = Some st1 \<and> solve_matrix T k st1 = Some st'"
  using assms by (simp split: option.splits)

lemma fold_solve_matrix:
  assumes "fold (\<lambda>m s. case s of None \<Rightarrow> None | Some s1 \<Rightarrow> solve_matrix T m s1) [0..<k]
             (Some st) = Some st'"
    and "k \<le> length (iterations st)"
  shows "features st' = features st \<and> benchmark_mode st' = benchmark_mode st \<and>
         length (iterations st') = length (iterations st) \<and>
         (\<forall>m<k. \<exists>n. 0 < n \<and>
            (\<not> benchmark_mode st \<longrightarrow> n \<le> features st * features st * 16 + 1) \<and>
            iterations st' ! m = fof_int T (int n))"
  using assms
proof (induction k arbitrary: st')
  case 0
  then show ?case by simp
next
  case (Suc k)
  from fold_solve_Some[OF Suc.prems(1)] obtain st1 where
    st1: "fold (\<lambda>m s. case s of None \<Rightarrow> None | Some s1 \<Rightarrow> solve_matrix T m s1) [0..<k]
             (Some st) = Some st1"
    and last: "solve_matrix T k st1 = Some st'"
    by blast
  from Suc.IH[OF st1] Suc.prems(2)
  have f1: "features st1 = features st" and b1: "benchmark_mode st1 = benchmark_mode st"
    and l1: "length (iterations st1) = length (iterations st)"
    and old: "\<forall>m<k. \<exists>n. 0 < n \<and>
            (\<not> benchmark_mode st \<longrightarrow> n \<le> features st * features st * 16 + 1) \<and>
            iterations st1 ! m = fof_int T (int n)"
    by simp_all
  from solve_matrix_iterations[OF last] obtain n where
    n: "0 < n" "\<not> benchmark_mode st \<longrightarrow> n \<le> features st * features st * 16 + 1"
    "iterations st' = (iterations st1)[k := fof_int T (int n)]"
    unfolding f1 b1 by blast
  have "\<exists>n. 0 < n \<and> (\<not> benchmark_mode st \<longrightarrow> n \<le> features st * features st * 16 + 1) \<and>
            iterations st' ! m = fof_int T (int n)" if m: "m < Suc k" for m
  proof (cases "m = k")
    case True
    have "iterations st' ! k = fof_int T (int n)"
      using n(3) l1 Suc.prems(2) by simp
    with n(1,2) True show ?thesis by blast
  next
    case False
    with m have "m < k" by simp
    moreover have "iterations st' ! m = iterations st1 ! m"
      using n(3) False by simp
    ultimately show ?thesis using old by simp
  qed
  moreover have "features st' = features st" "benchmark_mode st' = benchmark_mode st"
    "length (iterations st') = length (iterations st)"
    using solve_matrix_frame[OF last] f1 b1 l1 by simp_all
  ultimately show ?case by simp
qed

lemma solve_matrix_terminates:
  assumes "\<not> benchmark_mode st"
  shows "\<exists>st'. solve_matrix T m st = Some st'"
proof -
  obtain res where "qr_while T (features st) (m * features st * features st) False
                 (init_vars T (m * features st * features st) st) = Some res"
    using qr_while_terminates by blast
  with assms show ?thesis by (simp add: solve_matrix_def Let_def)
qed

lemma fold_solve_matrix_terminates:
  assumes "\<not> benchmark_mode st"
  shows "\<exists>st'. fold (\<lambda>m s. case s of None \<Rightarrow> None | Some s1 \<Rightarrow> solve_matrix T m s1) [0..<k]
             (Some st) = Some st' \<and> \<not> benchmark_mode st'"
proof (induction k)
  case 0
  from assms show ?case by simp
next
  case (Suc k)
  then obtain st1 where st1:
    "fold (\<lambda>m s. case s of None \<Rightarrow> None | Some s1 \<Rightarrow> solve_matrix T m s1) [0..<k]
             (Some st) = Some st1" "\<not> benchmark_mode st1"
    by blast
  from solve_matrix_terminates[OF st1(2)] obtain st' where st': "solve_matrix T k st1 = Some st'"
    by blast
  with solve_matrix_frame(2)[OF st'] st1 show ?case by simp
qed





text \<open>
  Claim C2, as the code has it. The loop leaves when the counter, already incremented,
  exceeds \<open>features * features * 16\<close>, so the counter can reach that limit plus one and
  no more. Outside benchmark mode \<^verbatim>\<open>ComputeEigenValuesAndVectors\<close> returns, and for every
  matrix of the batch the count stored (the counter, converted to \<^verbatim>\<open>T\<close>) is at most
  \<open>features * features * 16 + 1\<close>.
\<close>

theorem iteration_count_bound:
  assumes "\<not> benchmark_mode st" and "length (iterations st) = matrix_count st"
  shows "\<exists>st'. ComputeEigenValuesAndVectors T st = Some st' \<and>
           (\<forall>m<matrix_count st. \<exists>n. n \<le> features st * features st * 16 + 1 \<and>
                iterations st' ! m = fof_int T (int n))"
proof -
  from fold_solve_matrix_terminates[OF assms(1)] obtain st' where
    st': "ComputeEigenValuesAndVectors T st = Some st'"
    unfolding ComputeEigenValuesAndVectors_def by blast
  then have "fold (\<lambda>m s. case s of None \<Rightarrow> None | Some s1 \<Rightarrow> solve_matrix T m s1)
               [0..<matrix_count st] (Some st) = Some st'"
    by (simp add: ComputeEigenValuesAndVectors_def)
  from fold_solve_matrix[OF this] assms st' show ?thesis by auto
qed

text \<open>
  Claim C4, as the code has it. Outside benchmark mode \<^verbatim>\<open>ComputeEigenValuesAndVectors\<close>
  returns for every state, and every run of the loop ends, by the \<^verbatim>\<open>break\<close> with the
  counter above \<open>features * features * 16\<close> or else with \<^verbatim>\<open>converged\<close> set. In benchmark
  mode the limit is not tested: a run of the loop that ends has ended by convergence.
\<close>

theorem solve_terminates_outside_benchmark_mode:
  "(\<not> benchmark_mode st \<longrightarrow> (\<exists>st'. ComputeEigenValuesAndVectors T st = Some st')) \<and>
   (\<forall>f offset v0. \<exists>v aborted. qr_while T f offset False v0 = Some (v, aborted) \<and>
        (aborted \<longrightarrow> f * f * 16 < iters v) \<and> (\<not> aborted \<longrightarrow> converged v)) \<and>
   (\<forall>f offset v0 v aborted. qr_while T f offset True v0 = Some (v, aborted) \<longrightarrow>
        \<not> aborted \<and> converged v)"
proof (intro conjI allI impI)
  assume "\<not> benchmark_mode st"
  from fold_solve_matrix_terminates[OF this]
  show "\<exists>st'. ComputeEigenValuesAndVectors T st = Some st'"
    unfolding ComputeEigenValuesAndVectors_def by blast
next
  fix f offset v0
  obtain res where res: "qr_while T f offset False v0 = Some res"
    using qr_while_terminates by blast
  from qr_while_exit[OF res] have "snd res \<longrightarrow> f * f * 16 < iters (fst res)"
    "\<not> snd res \<longrightarrow> converged (fst res)" by simp_all
  with res show "\<exists>v aborted. qr_while T f offset False v0 = Some (v, aborted) \<and>
        (aborted \<longrightarrow> f * f * 16 < iters v) \<and> (\<not> aborted \<longrightarrow> converged v)"
    by (cases res) auto
next
  fix f offset v0 v aborted
  assume "qr_while T f offset True v0 = Some (v, aborted)"
  from qr_while_exit[OF this] show "\<not> aborted" "converged v" by auto
qed

section \<open>The debug flag\<close>

lemma erase_idem [simp]: "erase (erase st) = erase st"
  by (simp add: erase_def)

lemma erase_dbg [simp]: "erase (dbg ts st) = erase st"
  by (simp add: erase_def dbg_def)

lemma erase_cout [simp]: "erase (st\<lparr>cout := ts\<rparr>) = erase st"
  by (simp add: erase_def)

lemma erase_fields [simp]:
  "samples (erase st) = samples st" "features (erase st) = features st"
  "matrix_count (erase st) = matrix_count st"
  "benchmark_mode (erase st) = benchmark_mode st" "a_matrix (erase st) = a_matrix st"
  "covariance_matrix (erase st) = covariance_matrix st"
  "eigenvalues (erase st) = eigenvalues st" "eigenvectors (erase st) = eigenvectors st"
  "iterations (erase st) = iterations st"
  by (simp_all add: erase_def)

lemma erase_eqI:
  assumes "samples st = samples st'" "features st = features st'"
    "matrix_count st = matrix_count st'" "benchmark_mode st = benchmark_mode st'"
    "a_matrix st = a_matrix st'" "covariance_matrix st = covariance_matrix st'"
    "eigenvalues st = eigenvalues st'" "eigenvectors st = eigenvectors st'"
    "iterations st = iterations st'"
  shows "erase st = erase st'"
  using assms by (intro golden_pca.equality) (simp_all add: erase_def)

lemma erase_cout_only: "cout_only st st' \<Longrightarrow> erase st' = erase st"
  by (rule erase_eqI) (simp_all add: cout_only_fields)

lemma erase_fold:
  assumes "\<And>x s. erase (g x s) = erase (g x (erase s))"
  shows "erase (fold g xs st) = erase (fold g xs (erase st))"
proof (induction xs arbitrary: st)
  case Nil
  show ?case by simp
next
  case (Cons x xs)
  have "erase (fold g xs (g x st)) = erase (fold g xs (erase (g x st)))"
    by (rule Cons.IH)
  also have "\<dots> = erase (fold g xs (erase (g x (erase st))))"
    using assms[of x st] by simp
  also have "\<dots> = erase (fold g xs (g x (erase st)))"
    by (rule Cons.IH[symmetric])
  finally show ?case by simp
qed

lemma dot_product_erase [simp]: "dot_product T (erase st) = dot_product T st"
  by (intro ext) (simp add: dot_product_def)

lemma erase_cov_cell:
  "erase (cov_cell T ao co row c st) = erase (cov_cell T ao co row c (erase st))"
  by (simp add: cov_cell_def Let_def) (simp add: erase_def)

lemma erase_cov_row: "erase (cov_row T ao co row st) = erase (cov_row T ao co row (erase st))"
  using erase_fold[of "cov_cell T ao co row", OF erase_cov_cell]
  by (simp add: cov_row_def)

lemma erase_ComputeCovarianceIthMatrix:
  "erase (ComputeCovarianceIthMatrix T m st) = erase (ComputeCovarianceIthMatrix T m (erase st))"
proof -
  have "erase (ComputeCovarianceIthMatrix T m s) =
        erase (fold (cov_row T (m * samples s * features s) (m * features s * features s))
                 [0..<features s] (erase s))" for s
    unfolding ComputeCovarianceIthMatrix_def Let_def
    using erase_fold[of "cov_row T (m * samples s * features s) (m * features s * features s)",
            OF erase_cov_row, of "[0..<features s]"
              "dbg [Text ''\<newline>Covariance matrix #'', Index m, Endl] s"]
    by (simp add: erase_cout_only[OF print_cov_cout_only])
  from this[of st] this[of "erase st"] show ?thesis by simp
qed

lemma erase_ComputeCovarianceMatrix:
  "erase (ComputeCovarianceMatrix T st) = erase (ComputeCovarianceMatrix T (erase st))"
  using erase_fold[of "ComputeCovarianceIthMatrix T", OF erase_ComputeCovarianceIthMatrix]
  by (simp add: ComputeCovarianceMatrix_def)

lemma init_vars_erase [simp]: "init_vars T offset (erase st) = init_vars T offset st"
  by (simp add: init_vars_def)

lemma erase_report:
  "erase (report T m offset res st) = erase (report T m offset res (erase st))"
  by (rule erase_eqI) (simp_all add: report_fields)

lemma erase_solve_matrix:
  "map_option erase (solve_matrix T m st) = map_option erase (solve_matrix T m (erase st))"
proof -
  have "map_option erase (solve_matrix T m s) =
        map_option (\<lambda>res. erase (report T m (m * features s * features s) res (erase s)))
          (qr_while T (features s) (m * features s * features s) (benchmark_mode s)
             (init_vars T (m * features s * features s) s))" for s
    unfolding solve_matrix_def Let_def
    using erase_report[of T m _ _ "dbg [Text ''\<newline>Computing Eigenvalues and vectors of matrix #'', Index m, Endl] s"]
    by (simp split: option.splits)
  from this[of st] this[of "erase st"] show ?thesis by simp
qed

lemma erase_fold_solve:
  "map_option erase (fold (\<lambda>m s. case s of None \<Rightarrow> None | Some s1 \<Rightarrow> solve_matrix T m s1) xs s) =
   map_option erase (fold (\<lambda>m s. case s of None \<Rightarrow> None | Some s1 \<Rightarrow> solve_matrix T m s1) xs
                       (map_option erase s))"
proof (induction xs arbitrary: s)
  case Nil
  show ?case by (simp add: option.map_comp comp_def)
next
  case (Cons x xs)
  let ?step = "\<lambda>m s. case s of None \<Rightarrow> None | Some s1 \<Rightarrow> solve_matrix T m s1"
  have "map_option erase (?step x s) = map_option erase (?step x (map_option erase s))"
    using erase_solve_matrix by (cases s) simp_all
  then have "map_option erase (fold ?step xs (map_option erase (?step x s))) =
        map_option erase (fold ?step xs (map_option erase (?step x (map_option erase s))))"
    by simp
  then show ?case using Cons.IH[of "?step x s"] Cons.IH[of "?step x (map_option erase s)"]
    by simp
qed

lemma erase_ComputeEigenValuesAndVectors:
  "map_option erase (ComputeEigenValuesAndVectors T st) =
   map_option erase (ComputeEigenValuesAndVectors T (erase st))"
  using erase_fold_solve[of T "[0..<matrix_count st]" "Some st"]
  by (simp add: ComputeEigenValuesAndVectors_def)

lemma numerical_outputs_erase [simp]: "numerical_outputs (erase st) = numerical_outputs st"
  by (simp add: numerical_outputs_def)

lemma erase_GoldenPCA:
  "map_sum id erase (GoldenPCA T n p count d b input_mat) =
   map_sum id erase (GoldenPCA T n p count d' b input_mat)"
  by (simp add: GoldenPCA_def erase_def split: sum.splits)

text \<open>
  Claim C8. Two runs of the three public calls on the same arguments, one with the
  debug flag set and one without, either both fail in the constructor, or both never
  return, or return the same covariance matrices, eigenvalues, eigenvectors and
  iteration counts.
\<close>

theorem debug_flag_does_not_change_results:
  "run T n p count True benchmark input_mat = run T n p count False benchmark input_mat"
proof -
  have r: "run T n p count d benchmark input_mat =
        map_sum id (\<lambda>st. map_option numerical_outputs
          (map_option erase (ComputeEigenValuesAndVectors T (erase (ComputeCovarianceMatrix T (erase st))))))
          (map_sum id erase (GoldenPCA T n p count d benchmark input_mat))" for d
  proof (cases "GoldenPCA T n p count d benchmark input_mat")
    case (Inl e)
    then show ?thesis by (simp add: run_def)
  next
    case (Inr st)
    have "map_option numerical_outputs (ComputeEigenValuesAndVectors T (ComputeCovarianceMatrix T st)) =
          map_option numerical_outputs (map_option erase
             (ComputeEigenValuesAndVectors T (ComputeCovarianceMatrix T st)))"
      by (simp add: option.map_comp comp_def)
    also have "\<dots> = map_option numerical_outputs (map_option erase
             (ComputeEigenValuesAndVectors T (erase (ComputeCovarianceMatrix T st))))"
      by (subst erase_ComputeEigenValuesAndVectors) simp
    also have "erase (ComputeCovarianceMatrix T st) = erase (ComputeCovarianceMatrix T (erase st))"
      by (rule erase_ComputeCovarianceMatrix)
    finally show ?thesis using Inr by (simp add: run_def)
  qed
  show ?thesis unfolding r[of True] r[of False] erase_GoldenPCA[of T n p count True benchmark input_mat False] ..
qed

section \<open>The zero matrix of size 2\<close>

lemmas qr_defs = qr_iteration_def shift_value_def sub_diag_def clear_mat_def gs_column_def
  col_norm_def normalize_col_def project_col_def col_dot_def eigenvectors_q_product_def
  evec_cell_def store_evecs_def recompose_def rq_cell_def add_diag_def
  all_below_threshold_def below_threshold_def row_is_zero_def compute_shift_def fsub_def

lemma init_zero_cov:
  "init_vars T 0 (zero_cov b) =
     \<lparr>rq = replicate 4 (Fin False 0), q_mat = replicate 4 (Fin False 0),
      r_mat = replicate 4 (Fin False 0),
      evecs = [fof_int T 1, Fin False 0, Fin False 0, fof_int T 1], iters = 0,
      converged = False\<rparr>"
  by (simp add: init_vars_def zero_cov_def load_rq_def identity_evecs_def numeral_2_eq_2
      numeral_eq_Suc round_to_def round_mag_def)

lemma first_iteration_zero_cov:
  "qr_iteration T 2 0 (init_vars T 0 (zero_cov b)) = (nan_vars 1)\<lparr>r_mat := [Fin False 0, NaN, Fin False 0, NaN]\<rparr>"
  unfolding init_zero_cov
  by (simp add: qr_defs Let_def numeral_2_eq_2 numeral_eq_Suc nan_vars_def sval_def)

lemma next_iteration_nan:
  "qr_iteration T 2 0 \<lparr>rq = replicate 4 NaN, q_mat = [q0, q1, q2, q3], r_mat = [r0, r1, r2, r3],
      evecs = replicate 4 NaN, iters = Suc k, converged = False\<rparr> = nan_vars (Suc (Suc k))"
  by (simp add: qr_defs Let_def numeral_2_eq_2 numeral_eq_Suc nan_vars_def sval_def)


lemma list4:
  assumes "length xs = 4"
  shows "\<exists>a b c d. xs = [a, b, c, d]"
proof -
  from assms obtain a ys where 1: "xs = a # ys" "length ys = 3"
    by (cases xs) auto
  then obtain b zs where 2: "ys = b # zs" "length zs = 2" by (cases ys) auto
  then obtain c ws where 3: "zs = c # ws" "length ws = 1" by (cases zs) auto
  then obtain d where 4: "ws = [d]" by (cases ws) auto
  from 1 2 3 4 show ?thesis by simp
qed

lemma nan_like_step:
  assumes "nan_like v"
  shows "qr_iteration T 2 0 v = nan_vars (Suc (iters v))"
proof -
  from assms obtain q0 q1 q2 q3 where q: "q_mat v = [q0, q1, q2, q3]"
    using list4[of "q_mat v"] by (auto simp: nan_like_def)
  from assms obtain r0 r1 r2 r3 where r: "r_mat v = [r0, r1, r2, r3]"
    using list4[of "r_mat v"] by (auto simp: nan_like_def)
  from assms obtain k where k: "iters v = Suc k"
    by (cases "iters v") (auto simp: nan_like_def)
  have "v = \<lparr>rq = replicate 4 NaN, q_mat = [q0, q1, q2, q3], r_mat = [r0, r1, r2, r3],
      evecs = replicate 4 NaN, iters = Suc k, converged = False\<rparr>"
    using assms q r k by (intro qr_vars.equality) (simp_all add: nan_like_def)
  then show ?thesis using next_iteration_nan[of T q0 q1 q2 q3 r0 r1 r2 r3 k] k by simp
qed

lemma nan_like_nan_vars: "0 < k \<Longrightarrow> nan_like (nan_vars k)"
  by (simp add: nan_like_def nan_vars_def)

lemma nan_like_first: "nan_like (qr_iteration T 2 0 (init_vars T 0 (zero_cov b)))"
  unfolding first_iteration_zero_cov by (simp add: nan_like_def nan_vars_def)

text \<open>Outside benchmark mode the loop over a matrix of NaN ends at the limit.\<close>

lemma nan_loop_aborts:
  assumes "nan_like v" "iters v \<le> 64"
  shows "qr_while T 2 0 False v = Some (nan_vars 65, True)"
  using assms
proof (induction "64 - iters v" arbitrary: v)
  case 0
  then have i: "iters v = 64" by simp
  from "0.prems"(1) have nc: "\<not> converged v" by (simp add: nan_like_def)
  show ?case
    by (subst qr_while.simps) (simp add: nc nan_like_step[OF "0.prems"(1)] i nan_vars_def)
next
  case (Suc d)
  then have i: "iters v < 64" by simp
  from Suc.prems(1) have nc: "\<not> converged v" by (simp add: nan_like_def)
  have "qr_while T 2 0 False (nan_vars (Suc (iters v))) = Some (nan_vars 65, True)"
    using Suc.hyps(2) i
    by (intro Suc.hyps(1)) (simp_all add: nan_like_nan_vars, simp_all add: nan_vars_def)
  then show ?case
    using i by (subst qr_while.simps) (simp add: nc nan_like_step[OF Suc.prems(1)] nan_vars_def)
qed

text \<open>In benchmark mode it never ends.\<close>

lemma nan_loop_forever:
  assumes "nan_like v"
  shows "qr_while T 2 0 True v = None"
proof (rule ccontr)
  assume "qr_while T 2 0 True v \<noteq> None"
  then obtain res where run: "qr_while T 2 0 True v = Some res" by auto
  define P where "P = (\<lambda>(T::fformat) (f::nat) (offset::nat) benchmark (v::qr_vars)
     (res::qr_vars \<times> bool). \<not> (f = 2 \<and> offset = 0 \<and> benchmark \<and> nan_like v))"
  have "P T 2 0 True v res"
  proof (rule qr_while.raw_induct[where P = P, OF _ run])
    fix qr_while' T f offset benchmark v res
    assume IH: "\<And>T f offset benchmark v res.
        qr_while' T f offset benchmark v = Some res \<Longrightarrow> P T f offset benchmark v res"
      and eq: "(if converged v then Some (v, False)
         else let v1 = qr_iteration T f offset v
              in if f * f * 16 < iters v1 \<and> \<not> benchmark then Some (v1, True)
                 else qr_while' T f offset benchmark v1) = Some res"
    show "P T f offset benchmark v res"
      unfolding P_def
    proof
      assume a: "f = 2 \<and> offset = 0 \<and> benchmark \<and> nan_like v"
      then have nc: "\<not> converged v" by (simp add: nan_like_def)
      from a eq nc have "qr_while' T 2 0 True (nan_vars (Suc (iters v))) = Some res"
        by (simp add: Let_def nan_like_step)
      from IH[OF this] show False by (simp add: P_def nan_like_nan_vars)
    qed
  qed
  with assms show False by (simp add: P_def)
qed

lemma zero_cov_loop:
  "qr_while T 2 0 False (init_vars T 0 (zero_cov b)) = Some (nan_vars 65, True)"
  "qr_while T 2 0 True (init_vars T 0 (zero_cov b)) = None"
proof -
  let ?v1 = "qr_iteration T 2 0 (init_vars T 0 (zero_cov b))"
  have i: "iters ?v1 = 1" by simp
  show "qr_while T 2 0 False (init_vars T 0 (zero_cov b)) = Some (nan_vars 65, True)"
    using nan_loop_aborts[OF nan_like_first[of T b], of T] i
    by (subst qr_while.simps) (simp add: Let_def)
  show "qr_while T 2 0 True (init_vars T 0 (zero_cov b)) = None"
    using nan_loop_forever[OF nan_like_first[of T b], of T] i
    by (subst qr_while.simps) (simp add: Let_def)
qed

lemma zero_cov_pipeline:
  "GoldenPCA T 1 2 1 False b [[Fin False 0, Fin False 0]] =
     Inr ((zero_cov b)\<lparr>covariance_matrix := replicate 4 (Fin False 0)\<rparr>)"
  "ComputeCovarianceMatrix T (zero_cov b) = zero_cov b"
  by (simp_all add: GoldenPCA_def copy_input_def copy_cell_def zero_cov_def numeral_2_eq_2
      numeral_eq_Suc ComputeCovarianceMatrix_def ComputeCovarianceIthMatrix_def cov_row_def
      cov_cell_def dot_product_def dbg_def print_cov_def Let_def sval_def)

section \<open>Leaving the loop at the limit\<close>

lemma cout_only_eqI:
  assumes "samples st = samples st'" "features st = features st'"
    "matrix_count st = matrix_count st'" "debug st = debug st'"
    "benchmark_mode st = benchmark_mode st'"
    "a_matrix st = a_matrix st'" "covariance_matrix st = covariance_matrix st'"
    "eigenvalues st = eigenvalues st'" "eigenvectors st = eigenvectors st'"
    "iterations st = iterations st'"
  shows "cout_only st st'"
  unfolding cout_only_def using assms by (intro golden_pca.equality) simp_all

lemma report_flag: "cout_only (report T m offset (v, False) st) (report T m offset (v, True) st)"
  by (rule cout_only_eqI) (simp_all add: report_fields)

lemma converged_output_solve:
  assumes "qr_while T (features st) (m * features st * features st) (benchmark_mode st)
             (init_vars T (m * features st * features st) st) = Some (v, False)"
  shows "solve_matrix T m st = Some (converged_output T m v st)"
  using assms by (simp add: solve_matrix_def converged_output_def Let_def)

lemma fold_update_row_at:
  assumes "b + n \<le> length xs" "k < n"
  shows "fold (\<lambda>c m. m[b + c := h c]) [0..<n] xs ! (b + k) = h k"
  using fold_update_row[OF assms(1), of h] assms by simp

text \<open>
  Claim C7. When the limit ends the loop for matrix \<open>m\<close> with the variables \<open>v\<close>, the
  solve of that matrix returns: the eigenvectors stored are the accumulator \<open>evecs v\<close>,
  the eigenvalues stored are the diagonal of \<open>rq v\<close>, converted to \<^verbatim>\<open>T\<close>, and the state
  differs from the one a convergence with the same variables leaves in the stream
  only, where the message is.
\<close>

theorem bound_abort_reports_partial_result:
  assumes "qr_while T (features st) (m * features st * features st) (benchmark_mode st)
             (init_vars T (m * features st * features st) st) = Some (v, True)"
    and "m * features st + features st \<le> length (eigenvalues st)"
  shows "\<exists>st'. solve_matrix T m st = Some st' \<and>
           eigenvectors st' = evecs v \<and>
           (\<forall>k<features st. eigenvalues st' ! (m * features st + k) =
                               fcvt T (rq v ! (k + features st * k))) \<and>
           cout_only (converged_output T m v st) st'"
proof -
  let ?st1 = "dbg [Text ''\<newline>Computing Eigenvalues and vectors of matrix #'', Index m, Endl] st"
  let ?st' = "report T m (m * features st * features st) (v, True) ?st1"
  have run: "solve_matrix T m st = Some ?st'"
    using assms(1) by (simp add: solve_matrix_def Let_def)
  have ev: "eigenvectors ?st' = evecs v" by (simp add: report_fields)
  have "eigenvalues ?st' ! (m * features st + k) = fcvt T (rq v ! (k + features st * k))"
    if "k < features st" for k
    using fold_update_row_at[OF assms(2) that, of "\<lambda>k. fcvt T (rq v ! (k + features st * k))"]
    by (simp add: report_fields)
  moreover have "cout_only (converged_output T m v st) ?st'"
    unfolding converged_output_def by (rule report_flag)
  ultimately show ?thesis using run ev by blast
qed

lemma zero_cov_fields:
  "samples (zero_cov b) = 1" "features (zero_cov b) = 2" "matrix_count (zero_cov b) = 1"
  "benchmark_mode (zero_cov b) = b" "debug (zero_cov b) = False"
  "iterations (zero_cov b) = [Fin False 0]" "eigenvalues (zero_cov b) = [Fin False 0, Fin False 0]"
  by (simp_all add: zero_cov_def numeral_2_eq_2)

text \<open>
  The hypotheses of C7 hold for the zero matrix of size 2: the limit ends the loop
  after 65 iterations, and the eigenvalues and eigenvectors stored are NaN.
\<close>

theorem bound_abort_reports_partial_result_witness:
  "qr_while binary64 (features (zero_cov False)) (0 * features (zero_cov False) * features (zero_cov False))
     (benchmark_mode (zero_cov False))
     (init_vars binary64 (0 * features (zero_cov False) * features (zero_cov False)) (zero_cov False))
     = Some (nan_vars 65, True) \<and>
   0 * features (zero_cov False) + features (zero_cov False) \<le> length (eigenvalues (zero_cov False)) \<and>
   (\<exists>st'. solve_matrix binary64 0 (zero_cov False) = Some st' \<and>
      eigenvectors st' = replicate 4 NaN \<and>
      (\<forall>k<2. eigenvalues st' ! k = NaN) \<and>
      cout_only (converged_output binary64 0 (nan_vars 65) (zero_cov False)) st')"
proof -
  have h1: "qr_while binary64 (features (zero_cov False))
     (0 * features (zero_cov False) * features (zero_cov False))
     (benchmark_mode (zero_cov False))
     (init_vars binary64 (0 * features (zero_cov False) * features (zero_cov False)) (zero_cov False))
     = Some (nan_vars 65, True)"
    by (simp add: zero_cov_fields zero_cov_loop)
  have h2: "0 * features (zero_cov False) + features (zero_cov False)
              \<le> length (eigenvalues (zero_cov False))"
    by (simp add: zero_cov_fields)
  have nth: "k < 2 \<Longrightarrow> replicate 4 NaN ! (k + 2 * k) = NaN" for k :: nat
    by simp
  from bound_abort_reports_partial_result[OF h1 h2] obtain st' where
    "solve_matrix binary64 0 (zero_cov False) = Some st'"
    "eigenvectors st' = evecs (nan_vars 65)"
    "\<forall>k<2. eigenvalues st' ! k = fcvt binary64 (rq (nan_vars 65) ! (k + 2 * k))"
    "cout_only (converged_output binary64 0 (nan_vars 65) (zero_cov False)) st'"
    by (auto simp: zero_cov_fields)
  then have "solve_matrix binary64 0 (zero_cov False) = Some st' \<and>
      eigenvectors st' = replicate 4 NaN \<and>
      (\<forall>k<2. eigenvalues st' ! k = NaN) \<and>
      cout_only (converged_output binary64 0 (nan_vars 65) (zero_cov False)) st'"
    using nth by (simp add: nan_vars_def)
  with h1 h2 show ?thesis by blast
qed

section \<open>A diagonal matrix\<close>

lemma init_diag:
  "init_vars binary64 0 (diag_4_1 b) =
     \<lparr>rq = [Fin False 4, Fin False 0, Fin False 0, Fin False 1],
      q_mat = [Fin False 0, Fin False 0, Fin False 0, Fin False 0],
      r_mat = [Fin False 0, Fin False 0, Fin False 0, Fin False 0],
      evecs = [Fin False 1, Fin False 0, Fin False 0, Fin False 1], iters = 0,
      converged = False\<rparr>"
  by (simp add: init_vars_def diag_4_1_def load_rq_def identity_evecs_def numeral_2_eq_2
      numeral_eq_Suc fof_int_def arith_4)

lemmas qr_defs' = qr_iteration_def shift_value_def sub_diag_def clear_mat_def gs_column_def
  col_norm_def normalize_col_def project_col_def col_dot_def eigenvectors_q_product_def
  evec_cell_def store_evecs_def recompose_def rq_cell_def add_diag_def
  all_below_threshold_def row_is_zero_def compute_shift_def fsub_def

lemma iteration_diag:
  "qr_iteration binary64 2 0 (init_vars binary64 0 (diag_4_1 b)) =
     \<lparr>rq = [Fin False 4, Fin False 0, Fin False 0, Fin False 1],
      q_mat = [Fin False 1, Fin False 0, Fin False 0, Fin False 1],
      r_mat = [Fin False 4, Fin False 0, Fin False 0, Fin False 1],
      evecs = [Fin False 1, Fin False 0, Fin False 0, Fin False 1], iters = 1,
      converged = True\<rparr>"
  unfolding init_diag
  by (simp add: qr_defs' Let_def numeral_2_eq_2 sval_def arith_4)

section \<open>The examples, run\<close>

lemma dbg_off [simp]: "\<not> debug st \<Longrightarrow> dbg ts st = st"
  by (simp add: dbg_def)

lemma GoldenPCA_zero:
  "GoldenPCA T 1 2 1 False b [[Fin False 0, Fin False 0]] = Inr (zero_cov b)"
  by (simp add: GoldenPCA_def copy_input_def copy_cell_def zero_cov_def numeral_2_eq_2
      numeral_eq_Suc)

lemma solve_matrix_plain:
  assumes "\<not> debug st" "features st = f" "benchmark_mode st = b"
  shows "solve_matrix T 0 st =
           (case qr_while T f 0 b (init_vars T 0 st) of None \<Rightarrow> None
            | Some res \<Rightarrow> Some (report T 0 0 res st))"
  using assms by (simp add: solve_matrix_def)

lemma single_matrix:
  assumes "matrix_count st = 1"
  shows "ComputeEigenValuesAndVectors T st = solve_matrix T 0 st"
  using assms by (simp add: ComputeEigenValuesAndVectors_def)

lemma zero_cov_solve:
  "ComputeEigenValuesAndVectors T (zero_cov False) =
     Some (report T 0 0 (nan_vars 65, True) (zero_cov False))"
  "ComputeEigenValuesAndVectors T (zero_cov True) = None"
proof -
  have s: "solve_matrix T 0 (zero_cov b) =
           (case qr_while T 2 0 b (init_vars T 0 (zero_cov b)) of None \<Rightarrow> None
            | Some res \<Rightarrow> Some (report T 0 0 res (zero_cov b)))" for b
    by (rule solve_matrix_plain) (simp_all add: zero_cov_fields)
  show "ComputeEigenValuesAndVectors T (zero_cov False) =
     Some (report T 0 0 (nan_vars 65, True) (zero_cov False))"
    unfolding single_matrix[OF zero_cov_fields(3)] s zero_cov_loop by simp
  show "ComputeEigenValuesAndVectors T (zero_cov True) = None"
    unfolding single_matrix[OF zero_cov_fields(3)] s zero_cov_loop by simp
qed

lemma zero_cov_run:
  "ComputeEigenValuesAndVectors T (ComputeCovarianceMatrix T
      (projr (GoldenPCA T 1 2 1 False False [[Fin False 0, Fin False 0]]))) =
     Some (report T 0 0 (nan_vars 65, True) (zero_cov False))"
  "ComputeEigenValuesAndVectors T (ComputeCovarianceMatrix T
      (projr (GoldenPCA T 1 2 1 False True [[Fin False 0, Fin False 0]]))) = None"
  unfolding GoldenPCA_zero sum.sel zero_cov_pipeline by (rule zero_cov_solve)+

lemma fof_int_65: "fof_int binary64 65 = Fin False 65"
  by (simp add: fof_int_def fp_eval)

text \<open>
  Claim C2 as stated fails: for one sample \<open>(0, 0)\<close>, outside benchmark mode, the count
  stored is 65, and the limit \<open>features * features * 16\<close> is 64.
\<close>

theorem iteration_count_limit_counterexample:
  "map_option iterations
     (ComputeEigenValuesAndVectors binary64 (ComputeCovarianceMatrix binary64
        (projr (GoldenPCA binary64 1 2 1 False False [[Fin False 0, Fin False 0]])))) =
   Some [Fin False 65] \<and> \<not> (65::nat) \<le> 2 * 2 * 16"
proof -
  have "iters (nan_vars 65) = 65" by (simp add: nan_vars_def)
  then show ?thesis
    unfolding zero_cov_run by (simp add: report_fields zero_cov_fields fof_int_65)
qed

text \<open>The hypotheses of C2 hold in the state of that example.\<close>

theorem iteration_count_bound_witness:
  "\<not> benchmark_mode (zero_cov False) \<and>
   length (iterations (zero_cov False)) = matrix_count (zero_cov False) \<and>
   (\<exists>st'. ComputeEigenValuesAndVectors binary64 (zero_cov False) = Some st' \<and>
      (\<forall>m<1. \<exists>n. n \<le> 2 * 2 * 16 + 1 \<and> iterations st' ! m = fof_int binary64 (int n)))"
proof -
  have h: "\<not> benchmark_mode (zero_cov False)"
    "length (iterations (zero_cov False)) = matrix_count (zero_cov False)"
    by (simp_all add: zero_cov_fields)
  from iteration_count_bound[OF h, of binary64] h show ?thesis
    by (simp add: zero_cov_fields)
qed

text \<open>
  Claim C4 as stated fails: for one sample \<open>(0, 0)\<close> in benchmark mode,
  \<^verbatim>\<open>ComputeEigenValuesAndVectors\<close> never returns.
\<close>

theorem benchmark_mode_counterexample:
  "ComputeEigenValuesAndVectors binary64 (ComputeCovarianceMatrix binary64
      (projr (GoldenPCA binary64 1 2 1 False True [[Fin False 0, Fin False 0]]))) = None"
  by (rule zero_cov_run)


lemma diag_4_1_loop:
  "qr_while binary64 2 0 b (init_vars binary64 0 (diag_4_1 b')) =
     Some (\<lparr>rq = [Fin False 4, Fin False 0, Fin False 0, Fin False 1],
      q_mat = [Fin False 1, Fin False 0, Fin False 0, Fin False 1],
      r_mat = [Fin False 4, Fin False 0, Fin False 0, Fin False 1],
      evecs = [Fin False 1, Fin False 0, Fin False 0, Fin False 1], iters = 1,
      converged = True\<rparr>, False)"
  by (subst qr_while.simps, subst qr_while.simps) (simp add: iteration_diag Let_def)


lemma diag_4_1_pipeline:
  "ComputeCovarianceMatrix binary64
     (projr (GoldenPCA binary64 2 2 1 False b
        [[Fin False 2, Fin False 0], [Fin False 0, Fin False 1]])) = diag_4_1 b"
  by (simp add: GoldenPCA_def copy_input_def copy_cell_def diag_4_1_def numeral_2_eq_2
      numeral_eq_Suc ComputeCovarianceMatrix_def ComputeCovarianceIthMatrix_def cov_row_def
      cov_cell_def dot_product_def dbg_def print_cov_def Let_def sval_def arith_4)

text \<open>
  The hypotheses of C4: the zero matrix of size 2 outside benchmark mode, where the
  loop ends at the limit, and \<open>diag(4, 1)\<close> in benchmark mode, where it ends by
  convergence.
\<close>

theorem solve_terminates_outside_benchmark_mode_witness:
  "\<not> benchmark_mode (zero_cov False) \<and>
   (\<exists>st'. ComputeEigenValuesAndVectors binary64 (zero_cov False) = Some st') \<and>
   (\<exists>v aborted. qr_while binary64 2 0 False (init_vars binary64 0 (zero_cov False)) =
        Some (v, aborted) \<and> (aborted \<longrightarrow> 2 * 2 * 16 < iters v) \<and> (\<not> aborted \<longrightarrow> converged v)) \<and>
   (\<exists>v. qr_while binary64 2 0 True (init_vars binary64 0 (diag_4_1 True)) = Some (v, False) \<and>
        converged v)"
proof -
  note t = solve_terminates_outside_benchmark_mode[of "zero_cov False" binary64]
  have h: "\<not> benchmark_mode (zero_cov False)" by (simp add: zero_cov_fields)
  from t h have 1: "\<exists>st'. ComputeEigenValuesAndVectors binary64 (zero_cov False) = Some st'"
    by blast
  from t have 2: "\<exists>v aborted. qr_while binary64 2 0 False (init_vars binary64 0 (zero_cov False)) =
        Some (v, aborted) \<and> (aborted \<longrightarrow> 2 * 2 * 16 < iters v) \<and> (\<not> aborted \<longrightarrow> converged v)"
    by blast
  obtain v where run: "qr_while binary64 2 0 True (init_vars binary64 0 (diag_4_1 True)) =
      Some (v, False)"
    using diag_4_1_loop by blast
  from t run have "converged v" by blast
  with run h 1 2 show ?thesis by blast
qed

section \<open>The shift\<close>

lemma two_binary64: "fof_int binary64 2 = Fin False 2"
  by (simp add: fof_int_def fp_eval)

text \<open>
  With \<open>b * b\<close> and \<open>d\<close> both zero the divisor \<open>abs(d) + sqrt(d * d + b * b)\<close> is zero and
  the quotient is \<open>0 / 0\<close>.
\<close>

lemma compute_shift_zero_d:
  assumes "fmul binary64 b b = Fin False 0"
    and "fdiv binary64 (fsub binary64 a c) (fof_int binary64 2) = Fin s 0"
  shows "compute_shift a b c = NaN"
  unfolding compute_shift_def Let_def assms by (simp add: sval_def)

lemma below_threshold_NaN: "\<not> below_threshold NaN"
  by (simp add: below_threshold_def)

section \<open>A positive definite matrix with two equal diagonal entries\<close>

text \<open>The roundings that the covariance matrix and the first iteration need.\<close>

lemma arith_equal_diagonal:
  "round_to binary64 False 1 = Fin False 1"
  "round_to binary64 False 2 = Fin False 2"
  "round_to binary64 False (32451855365842674315458614234849 / 81129638414606681695789005144064) = Fin False (3602879701896397 / 9007199254740992)"
  "round_to binary64 False (3602879701896397 / 9007199254740992) = Fin False (3602879701896397 / 9007199254740992)"
  "round_to binary64 False 4 = Fin False 4"
  "round_to binary64 False 5 = Fin False 5"
  "round_to binary64 False (562949953421312 / 629397181890197) = Fin False (8056283928194521 / 9007199254740992)"
  "round_to binary64 False (281474976710656 / 629397181890197) = Fin False (8056283928194521 / 18014398509481984)"
  "round_to binary64 False (8056283928194521 / 9007199254740992) = Fin False (8056283928194521 / 9007199254740992)"
  "round_to binary64 False (8056283928194521 / 18014398509481984) = Fin False (8056283928194521 / 18014398509481984)"
  "round_to binary64 False (24168851784583563 / 18014398509481984) = Fin False (6042212946145891 / 4503599627370496)"
  "round_to binary64 False (48677783048764008511037092863211 / 40564819207303340847894502572032) = Fin False (5404319552844595 / 4503599627370496)"
  "round_to binary64 True (900719925474099 / 4503599627370496) = Fin True (900719925474099 / 4503599627370496)"
  "round_to binary64 False (48677783048764008511037092863211 / 81129638414606681695789005144064) = Fin False (5404319552844595 / 9007199254740992)"
  "round_to binary64 False (12980742146337070512478121581609 / 81129638414606681695789005144064) = Fin False (1441151880758559 / 9007199254740992)"
  "round_to binary64 False (1441151880758559 / 9007199254740992) = Fin False (1441151880758559 / 9007199254740992)"
  "round_to binary64 False (811296384146066456669919861801 / 20282409603651670423947251286016) = Fin False (720575940379279 / 18014398509481984)"
  "round_to binary64 False (720575940379279 / 18014398509481984) = Fin False (720575940379279 / 18014398509481984)"
  "round_to binary64 False (3602879701896397 / 18014398509481984) = Fin False (3602879701896397 / 18014398509481984)"
  "round_to binary64 True (3602879701896396 / 8056283928194521) = Fin True (1007035491024315 / 2251799813685248)"
  "round_to binary64 False (7205759403792794 / 8056283928194521) = Fin False (4028141964097261 / 4503599627370496)"
  "round_to binary64 True (1007035491024315 / 2251799813685248) = Fin True (1007035491024315 / 2251799813685248)"
  "round_to binary64 False (4028141964097261 / 4503599627370496) = Fin False (4028141964097261 / 4503599627370496)"
  "round_to binary64 False (5070602400912917721072279010637 / 2535301200456458802993406410752) = Fin False 2"
  "round_to binary64 False (23418718062326579 / 9007199254740992) = Fin False (5854679515581645 / 2251799813685248)"
  "round_to binary64 True (633825300114114636459387140055 / 633825300114114700748351602688) = Fin True (9007199254740991 / 9007199254740992)"
  "round_to binary64 True (9007199254740991 / 9007199254740992) = Fin True (9007199254740991 / 9007199254740992)"
  "round_to binary64 False (24338891524382007276625019504551 / 20282409603651670423947251286016) = Fin False (1351079888211149 / 1125899906842624)"
  "round_to binary64 False (1801439850948201 / 9007199254740992) = Fin False (1801439850948201 / 9007199254740992)"
  "round_to binary64 False (64903710731685341995954814419441 / 324518553658426726783156020576256) = Fin False (7205759403792793 / 36028797018963968)"
  "round_to binary64 False (7205759403792793 / 36028797018963968) = Fin False (7205759403792793 / 36028797018963968)"
  "round_to binary64 False (32451855365842675026119371306981 / 81129638414606681695789005144064) = Fin False (3602879701896397 / 9007199254740992)"
  "round_to binary64 False (5854679515581645 / 2251799813685248) = Fin False (5854679515581645 / 2251799813685248)"
  by (simp_all add: fp_eval)

lemma sqrt_equal_diagonal:
  "sqrt_mag binary64 (1441151880758559 / 9007199254740992) = 3602879701896397 / 9007199254740992"
  "sqrt_mag binary64 (3602879701896397 / 18014398509481984) = 8056283928194521 / 18014398509481984"
  "sqrt_mag binary64 5 = 629397181890197 / 281474976710656"
  by (simp_all add: fp_eval sqrt_mag_def isqrt.simps)

lemma below_threshold_fifth:
  "\<not> below_threshold (Fin False (7205759403792793 / 36028797018963968))"
  by (simp add: below_threshold_def kZeroThreshold_value sval_def)

lemma upt_3: "[0..<3] = [0, 1, 2]" "[Suc 0..<3] = [1, 2]" "[1..<3] = [1, 2]" "[2..<3] = [2]"
  "[3..<3] = []" "[0..<2] = [0, 1]" "[0..<1] = [0]" "[0..<Suc 0] = [0]" "[0..<0] = []"
  by (simp_all add: upt_rec)

lemma replicate_9: "replicate 9 x = [x, x, x, x, x, x, x, x, x]"
  by (simp add: numeral_eq_Suc)

lemmas iteration_defs = sub_diag_def clear_mat_def gs_column_def
  col_norm_def normalize_col_def project_col_def col_dot_def eigenvectors_q_product_def
  evec_cell_def store_evecs_def recompose_def rq_cell_def add_diag_def
  all_below_threshold_def fsub_def

lemma equal_diagonal_pipeline:
  "ComputeCovarianceMatrix binary64
     (projr (GoldenPCA binary64 3 3 1 False False equal_diagonal_input)) = equal_diagonal"
  by (simp add: GoldenPCA_def copy_input_def copy_cell_def equal_diagonal_def
      equal_diagonal_input_def numeral_3_eq_3
      ComputeCovarianceMatrix_def ComputeCovarianceIthMatrix_def
      cov_row_def cov_cell_def dot_product_def dbg_def print_cov_def Let_def sval_def
      arith_equal_diagonal)

lemma equal_diagonal_init:
  "init_vars binary64 0 equal_diagonal =
     \<lparr>rq = [Fin False 2, Fin False 0, Fin False 1,
            Fin False 0, Fin False (3602879701896397 / 9007199254740992), Fin False 0,
            Fin False 1, Fin False 0, Fin False 1],
      q_mat = [Fin False 0, Fin False 0, Fin False 0, Fin False 0, Fin False 0,
               Fin False 0, Fin False 0, Fin False 0, Fin False 0],
      r_mat = [Fin False 0, Fin False 0, Fin False 0, Fin False 0, Fin False 0,
               Fin False 0, Fin False 0, Fin False 0, Fin False 0],
      evecs = [Fin False 1, Fin False 0, Fin False 0, Fin False 0, Fin False 1,
               Fin False 0, Fin False 0, Fin False 0, Fin False 1],
      iters = 0, converged = False\<rparr>"
  by (simp add: init_vars_def equal_diagonal_def load_rq_def identity_evecs_def numeral_3_eq_3
      numeral_eq_Suc fof_int_def arith_equal_diagonal)


lemma equal_diagonal_construct:
  "GoldenPCA binary64 3 3 1 False False equal_diagonal_input =
     Inr (equal_diagonal\<lparr>covariance_matrix :=
            [Fin False 0, Fin False 0, Fin False 0, Fin False 0, Fin False 0, Fin False 0,
             Fin False 0, Fin False 0, Fin False 0]\<rparr>)"
  by (simp add: GoldenPCA_def copy_input_def copy_cell_def equal_diagonal_def
      equal_diagonal_input_def numeral_3_eq_3)

text \<open>
  The first iteration, stage by stage: the shift is zero, the three columns of the
  Gram-Schmidt step, the product with the eigenvectors, and \<^verbatim>\<open>rq\<close> recomposed.
\<close>

lemma equal_diagonal_first_iteration:
  "qr_iteration binary64 3 0 (init_vars binary64 0 equal_diagonal) = equal_diagonal_vars"
proof -
  let ?z = "Fin False 0"
  let ?o = "Fin False 1"
  let ?c = "Fin False (3602879701896397 / 9007199254740992)"
  let ?q00 = "Fin False (8056283928194521 / 9007199254740992)"
  let ?q20 = "Fin False (8056283928194521 / 18014398509481984)"
  let ?q02 = "Fin True (1007035491024315 / 2251799813685248)"
  let ?q22 = "Fin False (4028141964097261 / 4503599627370496)"
  let ?r00 = "Fin False (629397181890197 / 281474976710656)"
  let ?r02 = "Fin False (6042212946145891 / 4503599627370496)"
  let ?r22 = "Fin False (8056283928194521 / 18014398509481984)"
  let ?zeros = "[?z, ?z, ?z, ?z, ?z, ?z, ?z, ?z, ?z]"
  let ?id = "[?o, ?z, ?z, ?z, ?o, ?z, ?z, ?z, ?o]"
  let ?rq0 = "[Fin False 2, ?z, ?o, ?z, ?c, ?z, ?o, ?z, ?o]"
  let ?rqa = "[Fin False 2, ?z, Fin True (900719925474099 / 4503599627370496), ?z, ?c, ?z,
               ?o, ?z, ?c]"
  let ?qa = "[?q00, ?z, ?z, ?z, ?z, ?z, ?q20, ?z, ?z]"
  let ?qb = "[?q00, ?z, ?z, ?z, ?o, ?z, ?q20, ?z, ?z]"
  let ?qc = "[?q00, ?z, ?q02, ?z, ?o, ?z, ?q20, ?z, ?q22]"
  let ?ra = "[?r00, ?z, ?r02, ?z, ?z, ?z, ?z, ?z, ?z]"
  let ?rb = "[?r00, ?z, ?r02, ?z, ?c, ?z, ?z, ?z, ?z]"
  let ?rc = "[?r00, ?z, ?r02, ?z, ?c, ?z, ?z, ?z, ?r22]"
  let ?rq1 = "[Fin False (5854679515581645 / 2251799813685248), ?z,
               Fin False (1801439850948201 / 9007199254740992), ?z, ?c, ?z,
               Fin False (7205759403792793 / 36028797018963968), ?z, ?c]"
  note ev = upt_3 upt_conv_Cons replicate_9 fsub_def sval_def Let_def arith_equal_diagonal sqrt_equal_diagonal
  have sh: "shift_value 3 \<lparr>rq = ?rq0, q_mat = ?zeros, r_mat = ?zeros, evecs = ?id, iters = 0,
      converged = False\<rparr> = ?z"
    by (simp add: shift_value_first)
  have s1: "sub_diag 3 ?z ?rq0 = ?rq0"
    by (simp add: sub_diag_def ev)
  have s2: "clear_mat 3 ?zeros = ?zeros"
    by (simp add: clear_mat_def ev)
  have g0: "gs_column 3 0 \<lparr>rq = ?rq0, q_mat = ?zeros, r_mat = ?zeros, evecs = ?id, iters = 0,
      converged = False\<rparr> =
      \<lparr>rq = ?rqa, q_mat = ?qa, r_mat = ?ra, evecs = ?id, iters = 0, converged = False\<rparr>"
    unfolding gs_column_def Let_def
    by (simp add: col_norm_def normalize_col_def project_col_def col_dot_def ev)
  have g1: "gs_column 3 1 \<lparr>rq = ?rqa, q_mat = ?qa, r_mat = ?ra, evecs = ?id, iters = 0,
      converged = False\<rparr> =
      \<lparr>rq = ?rqa, q_mat = ?qb, r_mat = ?rb, evecs = ?id, iters = 0, converged = False\<rparr>"
    unfolding gs_column_def Let_def
    by (simp add: col_norm_def normalize_col_def project_col_def col_dot_def ev)
  have g2: "gs_column 3 2 \<lparr>rq = ?rqa, q_mat = ?qb, r_mat = ?rb, evecs = ?id, iters = 0,
      converged = False\<rparr> =
      \<lparr>rq = ?rqa, q_mat = ?qc, r_mat = ?rc, evecs = ?id, iters = 0, converged = False\<rparr>"
    unfolding gs_column_def Let_def
    by (simp add: col_norm_def normalize_col_def project_col_def col_dot_def ev)
  have e: "eigenvectors_q_product binary64 3 0 \<lparr>rq = ?rqa, q_mat = ?qc, r_mat = ?rc,
      evecs = ?id, iters = 0, converged = False\<rparr> = ?qc"
    by (simp add: eigenvectors_q_product_def evec_cell_def ev)
  have st: "store_evecs 3 0 ?qc ?id = ?qc"
    by (simp add: store_evecs_def ev)
  have r: "recompose 3 \<lparr>rq = ?rqa, q_mat = ?qc, r_mat = ?rc, evecs = ?qc, iters = 0,
      converged = False\<rparr> = ?rq1"
    by (simp add: recompose_def rq_cell_def ev)
  have a: "add_diag 3 ?z ?rq1 = ?rq1"
    by (simp add: add_diag_def ev)
  have c: "all_below_threshold 3 ?rq1 = False"
    by (simp add: all_below_threshold_def ev below_threshold_fifth)
  show ?thesis
    unfolding equal_diagonal_init qr_iteration_def Let_def equal_diagonal_vars_def
    apply (simp only: qr_vars.simps sh s1 s2 upt_3 fold.simps comp_apply id_apply g0 g1 g2 e st r a c)
    apply simp
    done
qed


text \<open>
  The second iteration: the search ends at row 2, whose entry in column 0 is not below
  the threshold, so the shift is computed from the elements 4, 7 and 8 of \<^verbatim>\<open>rq\<close>.
\<close>

lemma equal_diagonal_shift:
  "find_shift_row 3 (rq equal_diagonal_vars) 2 1 = 1"
  "compute_shift (rq equal_diagonal_vars ! 4) (rq equal_diagonal_vars ! 7)
     (rq equal_diagonal_vars ! 8) = NaN"
  "shift_value 3 equal_diagonal_vars = NaN"
proof -
  show f: "find_shift_row 3 (rq equal_diagonal_vars) 2 1 = 1"
    by (simp add: equal_diagonal_vars_def numeral_2_eq_2 row_is_zero_def below_threshold_fifth)
  show c: "compute_shift (rq equal_diagonal_vars ! 4) (rq equal_diagonal_vars ! 7)
     (rq equal_diagonal_vars ! 8) = NaN"
    by (rule compute_shift_zero_d[where s = False])
      (simp_all add: equal_diagonal_vars_def fsub_def sval_def two_binary64)
  have i: "iters equal_diagonal_vars = 1" "(3::nat) - 1 = 2" "int 3 - 2 = 1"
    "1 + 3 * (1::nat) = 4" "1 + 3 * (1 + 1::nat) = 7" "1 + 1 + 3 * (1 + 1::nat) = 8"
    by (simp_all add: equal_diagonal_vars_def)
  show "shift_value 3 equal_diagonal_vars = NaN"
    unfolding shift_value_def Let_def i f using c by simp
qed

text \<open>An iteration whose shift is NaN leaves NaN in every element.\<close>

lemma shift_value_NaN: "shift_value 3 (nan_vars_3 (Suc k)) = NaN"
  by (simp add: shift_value_def Let_def nan_vars_3_def numeral_2_eq_2 row_is_zero_def
      compute_shift_def below_threshold_NaN)

lemma iteration_with_NaN_shift:
  assumes "shift_value 3 \<lparr>rq = [m0, m1, m2, m3, m4, m5, m6, m7, m8],
      q_mat = [q0, q1, q2, q3, q4, q5, q6, q7, q8], r_mat = [r0, r1, r2, r3, r4, r5, r6, r7, r8],
      evecs = [e0, e1, e2, e3, e4, e5, e6, e7, e8], iters = k, converged = c\<rparr> = NaN"
  shows "qr_iteration T 3 0 \<lparr>rq = [m0, m1, m2, m3, m4, m5, m6, m7, m8],
      q_mat = [q0, q1, q2, q3, q4, q5, q6, q7, q8], r_mat = [r0, r1, r2, r3, r4, r5, r6, r7, r8],
      evecs = [e0, e1, e2, e3, e4, e5, e6, e7, e8], iters = k, converged = c\<rparr> =
    nan_vars_3 (Suc k)"
  unfolding qr_iteration_def Let_def assms
  by (simp add: iteration_defs upt_3 upt_conv_Cons replicate_9 nan_vars_3_def
      below_threshold_NaN)

lemma nan_vars_3_step:
  assumes "0 < k"
  shows "qr_iteration T 3 0 (nan_vars_3 k) = nan_vars_3 (Suc k)"
proof -
  from assms obtain j where k: "k = Suc j" by (cases k) auto
  show ?thesis
    using iteration_with_NaN_shift[OF shift_value_NaN[of j, unfolded nan_vars_3_def], of T]
    unfolding k by (simp add: nan_vars_3_def)
qed

lemma nan_vars_3_aborts:
  assumes "0 < k" "k \<le> 144"
  shows "qr_while T 3 0 False (nan_vars_3 k) = Some (nan_vars_3 145, True)"
  using assms
proof (induction "144 - k" arbitrary: k)
  case 0
  then have k: "k = 144" by simp
  have "qr_iteration T 3 0 (nan_vars_3 144) = nan_vars_3 145"
    using nan_vars_3_step[of 144 T] by simp
  then show ?case
    unfolding k by (subst qr_while.simps) (simp add: nan_vars_3_def)
next
  case (Suc d)
  then have k: "k < 144" by simp
  have "qr_while T 3 0 False (nan_vars_3 (Suc k)) = Some (nan_vars_3 145, True)"
    using Suc.hyps(2) Suc.prems by (intro Suc.hyps(1)) simp_all
  moreover have "\<not> converged (nan_vars_3 k)" "iters (nan_vars_3 (Suc k)) = Suc k"
    by (simp_all add: nan_vars_3_def)
  ultimately show ?case
    using k by (subst qr_while.simps) (simp add: nan_vars_3_step[OF Suc.prems(1)])
qed

lemma equal_diagonal_second_iteration:
  "qr_iteration binary64 3 0 equal_diagonal_vars = nan_vars_3 2"
  using iteration_with_NaN_shift[OF equal_diagonal_shift(3)[unfolded equal_diagonal_vars_def],
      of binary64]
  by (simp add: equal_diagonal_vars_def numeral_2_eq_2)

lemma equal_diagonal_loop:
  "qr_while binary64 3 0 False (init_vars binary64 0 equal_diagonal) =
     Some (nan_vars_3 145, True)"
proof -
  note 2 = equal_diagonal_second_iteration
  have c: "\<not> converged equal_diagonal_vars" "iters equal_diagonal_vars = 1"
    "\<not> converged (nan_vars_3 2)" "iters (nan_vars_3 2) = 2"
    by (simp_all add: equal_diagonal_vars_def nan_vars_3_def)
  have "qr_while binary64 3 0 False (nan_vars_3 2) = Some (nan_vars_3 145, True)"
    by (rule nan_vars_3_aborts) simp_all
  then have "qr_while binary64 3 0 False equal_diagonal_vars = Some (nan_vars_3 145, True)"
    by (subst qr_while.simps) (simp add: 2 c)
  then show ?thesis
    by (subst qr_while.simps) (simp add: equal_diagonal_first_iteration c)
qed

lemma equal_diagonal_fields:
  "features equal_diagonal = 3" "matrix_count equal_diagonal = 1"
  "\<not> benchmark_mode equal_diagonal" "\<not> debug equal_diagonal"
  by (simp_all add: equal_diagonal_def)

lemma fof_int_145: "fof_int binary64 145 = Fin False 145"
  by (simp add: fof_int_def fp_eval)

lemma equal_diagonal_solve:
  "ComputeEigenValuesAndVectors binary64 equal_diagonal =
     Some (equal_diagonal\<lparr>eigenvalues := [NaN, NaN, NaN],
             eigenvectors := [NaN, NaN, NaN, NaN, NaN, NaN, NaN, NaN, NaN],
             iterations := [Fin False 145],
             cout := [Text ''Number of iterations too high'', Endl]\<rparr>)"
proof -
  have s: "solve_matrix binary64 0 equal_diagonal =
           (case qr_while binary64 3 0 False (init_vars binary64 0 equal_diagonal) of
              None \<Rightarrow> None
            | Some res \<Rightarrow> Some (report binary64 0 0 res equal_diagonal))"
    by (rule solve_matrix_plain) (simp_all add: equal_diagonal_fields)
  show ?thesis
    unfolding single_matrix[OF equal_diagonal_fields(2)] s equal_diagonal_loop
    by (simp add: report_def store_eigenvalue_def print_evecs_def Let_def equal_diagonal_def
        nan_vars_3_def upt_3 fof_int_145)
qed

text \<open>
  Claim C3 does not hold of the code. For the three samples \<open>(1, 0, 0)\<close>, \<open>(1, 0, 1)\<close> and
  \<open>(0, s, 0)\<close> the covariance matrix is positive definite. After the first iteration the
  last row of \<^verbatim>\<open>rq\<close> has an entry in column 0 that is not below the threshold and a zero
  in column 1, and the two diagonal entries of the trailing submatrix are the same
  \<^verbatim>\<open>double\<close> \<open>c\<close>. The second iteration therefore computes the shift from \<open>a = c\<close> and
  \<open>b = 0\<close>: \<open>d\<close> and \<open>b * b\<close> are zero, the divisor is zero, the quotient is \<open>0 / 0\<close> and
  the shift is NaN, which does not compare equal to \<open>c\<close>. This shift is not discarded: it
  is subtracted from the diagonal, every element of \<^verbatim>\<open>rq\<close> and of the eigenvectors
  becomes NaN, the loop leaves at the limit, and the call stores NaN for every
  eigenvalue and every eigenvector element, with the count 145.
\<close>

theorem shift_division_by_zero_reaches_output:
  "ComputeCovarianceMatrix binary64
     (projr (GoldenPCA binary64 3 3 1 False False equal_diagonal_input)) = equal_diagonal \<and>
   qr_iteration binary64 3 0 (init_vars binary64 0 equal_diagonal) = equal_diagonal_vars \<and>
   iters equal_diagonal_vars = 1 \<and>
   find_shift_row 3 (rq equal_diagonal_vars) 2 1 = 1 \<and>
   rq equal_diagonal_vars ! 4 = Fin False (3602879701896397 / 9007199254740992) \<and>
   rq equal_diagonal_vars ! 7 = Fin False 0 \<and>
   rq equal_diagonal_vars ! 8 = Fin False (3602879701896397 / 9007199254740992) \<and>
   compute_shift (rq equal_diagonal_vars ! 4) (rq equal_diagonal_vars ! 7)
     (rq equal_diagonal_vars ! 8) = NaN \<and>
   \<not> feq (compute_shift (rq equal_diagonal_vars ! 4) (rq equal_diagonal_vars ! 7)
            (rq equal_diagonal_vars ! 8)) (rq equal_diagonal_vars ! 8) \<and>
   shift_value 3 equal_diagonal_vars = NaN \<and>
   qr_iteration binary64 3 0 equal_diagonal_vars = nan_vars_3 2 \<and>
   qr_while binary64 3 0 False (init_vars binary64 0 equal_diagonal) =
     Some (nan_vars_3 145, True) \<and>
   run binary64 3 3 1 False False equal_diagonal_input =
     Inr (Some ([Fin False 2, Fin False 0, Fin False 1,
                 Fin False 0, Fin False (3602879701896397 / 9007199254740992), Fin False 0,
                 Fin False 1, Fin False 0, Fin False 1],
                [NaN, NaN, NaN],
                [NaN, NaN, NaN, NaN, NaN, NaN, NaN, NaN, NaN],
                [Fin False 145]))"
proof -
  have p: "ComputeCovarianceMatrix binary64 (equal_diagonal\<lparr>covariance_matrix :=
            [Fin False 0, Fin False 0, Fin False 0, Fin False 0, Fin False 0, Fin False 0,
             Fin False 0, Fin False 0, Fin False 0]\<rparr>) = equal_diagonal"
    using equal_diagonal_pipeline unfolding equal_diagonal_construct by simp
  have "run binary64 3 3 1 False False equal_diagonal_input =
     Inr (map_option numerical_outputs (ComputeEigenValuesAndVectors binary64 equal_diagonal))"
    unfolding run_def equal_diagonal_construct by (simp add: p)
  then have r: "run binary64 3 3 1 False False equal_diagonal_input =
     Inr (Some ([Fin False 2, Fin False 0, Fin False 1,
                 Fin False 0, Fin False (3602879701896397 / 9007199254740992), Fin False 0,
                 Fin False 1, Fin False 0, Fin False 1],
                [NaN, NaN, NaN],
                [NaN, NaN, NaN, NaN, NaN, NaN, NaN, NaN, NaN],
                [Fin False 145]))"
    unfolding equal_diagonal_solve by (simp add: numerical_outputs_def equal_diagonal_def)
  have e: "rq equal_diagonal_vars ! 4 = Fin False (3602879701896397 / 9007199254740992)"
    "rq equal_diagonal_vars ! 7 = Fin False 0"
    "rq equal_diagonal_vars ! 8 = Fin False (3602879701896397 / 9007199254740992)"
    "iters equal_diagonal_vars = 1"
    by (simp_all add: equal_diagonal_vars_def)
  have n: "\<not> feq (compute_shift (rq equal_diagonal_vars ! 4) (rq equal_diagonal_vars ! 7)
            (rq equal_diagonal_vars ! 8)) (rq equal_diagonal_vars ! 8)"
    unfolding equal_diagonal_shift(2) by simp
  from equal_diagonal_pipeline equal_diagonal_first_iteration e equal_diagonal_shift n
    equal_diagonal_second_iteration equal_diagonal_loop r
  show ?thesis by blast
qed
section \<open>A column of zeros\<close>

lemma zn_fadd: "zn x \<Longrightarrow> zn y \<Longrightarrow> zn (fadd F x y)"
  by (cases x; cases y) (simp_all add: sval_def)

lemma zn_fneg: "zn x \<Longrightarrow> zn (fneg x)"
  by (cases x) simp_all

lemma zn_fsub: "zn x \<Longrightarrow> zn y \<Longrightarrow> zn (fsub F x y)"
  by (simp add: fsub_def zn_fadd zn_fneg)

lemma zn_fmul: "zn x \<Longrightarrow> zn (fmul F x y)"
  by (cases x; cases y) simp_all

lemma zn_fmul2: "zn y \<Longrightarrow> zn (fmul F x y)"
  by (subst fmul_commute) (rule zn_fmul)

lemma zn_fsqrt: "zn x \<Longrightarrow> zn (fsqrt F x)"
  by (cases x) simp_all

lemma zn_fdiv: "zn x \<Longrightarrow> zn y \<Longrightarrow> fdiv F x y = NaN"
  by (cases x; cases y) simp_all

lemma zn_fcvt: "zn x \<Longrightarrow> zn (fcvt F x)"
  by (cases x) simp_all

lemma fadd_NaN_left [simp]: "fadd F NaN y = NaN" by simp

lemma fold_invariant:
  assumes "I s" and "\<And>x s. x \<in> set xs \<Longrightarrow> I s \<Longrightarrow> I (g x s)"
  shows "I (fold g xs s)"
  using assms
proof (induction xs arbitrary: s)
  case Nil
  then show ?case by simp
next
  case (Cons x xs)
  have "I (g x s)" by (rule Cons.prems(2)) (simp_all add: Cons.prems(1))
  then have "I (fold g xs (g x s))"
    by (rule Cons.IH) (rule Cons.prems(2), simp_all)
  then show ?case by simp
qed

lemma fold_fadd_NaN_start: "fold (\<lambda>k acc. fadd F acc (g k)) xs NaN = NaN"
  by (induction xs) simp_all

lemma fold_fadd_NaN:
  assumes "k \<in> set xs" "g k = NaN"
  shows "fold (\<lambda>k acc. fadd F acc (g k)) xs a = NaN"
  using assms
proof (induction xs arbitrary: a)
  case Nil
  then show ?case by simp
next
  case (Cons x xs)
  show ?case
  proof (cases "x = k")
    case True
    with Cons.prems(2) show ?thesis by (simp add: fold_fadd_NaN_start)
  next
    case False
    with Cons.prems have "k \<in> set xs" by simp
    from Cons.IH[OF this Cons.prems(2)] show ?thesis by simp
  qed
qed

lemma fold_fadd_zn:
  assumes "zn a" "\<And>k. k \<in> set xs \<Longrightarrow> zn (g k)"
  shows "zn (fold (\<lambda>k acc. fadd F acc (g k)) xs a)"
  by (rule fold_invariant[where I = zn]) (simp_all add: assms zn_fadd)

text \<open>Indices of a matrix in row-major order.\<close>

lemma index_eq:
  assumes "i < f" "j < (f::nat)"
  shows "k * f + i = k' * f + j \<longleftrightarrow> k = k' \<and> i = j"
proof
  assume e: "k * f + i = k' * f + j"
  have "(k * f + i) div f = k" "(k' * f + j) div f = k'" using assms by simp_all
  with e have "k = k'" by simp
  with e show "k = k' \<and> i = j" by simp
qed simp

lemma index_less:
  assumes "k < f" "i < (f::nat)"
  shows "k * f + i < f * f"
proof -
  have "k * f + i < Suc k * f" using assms(2) by simp
  also have "\<dots> \<le> f * f" using assms(1) by (intro mult_le_mono1) simp
  finally show ?thesis .
qed


section \<open>The Gram-Schmidt step on a column of zeros\<close>

lemma length_normalize_col [simp]: "length (normalize_col f m i rii qm) = length qm"
  unfolding normalize_col_def
  by (rule fold_invariant[where I = "\<lambda>q. length q = length qm"]) simp_all

lemma col_norm_zn: "col_zn f i m \<Longrightarrow> zn (col_norm f m i)"
  unfolding col_norm_def
  by (rule fold_fadd_zn) (simp_all add: col_zn_def zn_fmul)

lemma col_dot_zn: "col_zn f i m \<Longrightarrow> zn (col_dot f qm j m i)"
  unfolding col_dot_def
  by (rule fold_fadd_zn) (simp_all add: col_zn_def zn_fmul2)

lemma project_col_length [simp]:
  "length (fst (project_col f qm j j' mr)) = length (fst mr)"
  unfolding project_col_def Let_def fst_conv
  by (rule fold_invariant[where I = "\<lambda>m. length m = length (fst mr)"]) simp_all

lemma project_col_col_zn:
  assumes i: "i < f" and j': "j' < f" and len: "length (fst mr) = f * f"
    and z: "col_zn f i (fst mr)"
  shows "col_zn f i (fst (project_col f qm j j' mr))"
proof -
  define dp where "dp = col_dot f qm j (fst mr) j'"
  have dpz: "j' = i \<Longrightarrow> zn dp" unfolding dp_def using z by (simp add: col_dot_zn)
  have "length (fold (\<lambda>k m. m[k * f + j' := fsub binary64 (m ! (k * f + j'))
                                  (fmul binary64 dp (qm ! (k * f + j)))]) [0..<f] (fst mr)) = f * f \<and>
        col_zn f i (fold (\<lambda>k m. m[k * f + j' := fsub binary64 (m ! (k * f + j'))
                                  (fmul binary64 dp (qm ! (k * f + j)))]) [0..<f] (fst mr))"
  proof (rule fold_invariant[where I = "\<lambda>m. length m = f * f \<and> col_zn f i m"])
    show "length (fst mr) = f * f \<and> col_zn f i (fst mr)" using len z by simp
  next
    fix k m
    assume k: "k \<in> set [0..<f]" and I: "length m = f * f \<and> col_zn f i m"
    let ?m' = "m[k * f + j' := fsub binary64 (m ! (k * f + j')) (fmul binary64 dp (qm ! (k * f + j)))]"
    have "zn (?m' ! (k2 * f + i))" if k2: "k2 < f" for k2
    proof (cases "k * f + j' = k2 * f + i")
      case True
      then have e: "k = k2" "j' = i" using index_eq[OF j' i, of k k2] by simp_all
      have lt: "k2 * f + i < length m" using I index_less[OF k2 i] by simp
      have "zn (m ! (k2 * f + i))" using I k2 by (simp add: col_zn_def)
      then have "zn (fsub binary64 (m ! (k2 * f + i)) (fmul binary64 dp (qm ! (k2 * f + j))))"
        using dpz[OF e(2)] by (intro zn_fsub zn_fmul)
      then show ?thesis using e lt by simp
    next
      case False
      then have "?m' ! (k2 * f + i) = m ! (k2 * f + i)" by simp
      then show ?thesis using I k2 by (simp add: col_zn_def)
    qed
    then show "length ?m' = f * f \<and> col_zn f i ?m'" using I by (simp add: col_zn_def)
  qed
  then show ?thesis by (simp add: project_col_def Let_def dp_def)
qed

lemma fold_project_col:
  assumes i: "i < f" and len: "length m = f * f" and z: "col_zn f i m"
  shows "length (fst (fold (project_col f qm j) [Suc j..<f] (m, rm))) = f * f \<and>
         col_zn f i (fst (fold (project_col f qm j) [Suc j..<f] (m, rm)))"
proof (rule fold_invariant[where I = "\<lambda>mr::fp list \<times> fp list. length (fst mr) = f * f \<and> col_zn f i (fst mr)"])
  show "length (fst (m, rm)) = f * f \<and> col_zn f i (fst (m, rm))" using len z by simp
next
  fix j' and mr :: "fp list \<times> fp list"
  assume "j' \<in> set [Suc j..<f]" and I: "length (fst mr) = f * f \<and> col_zn f i (fst mr)"
  then have "j' < f" by simp
  from project_col_col_zn[OF i this] I
  show "length (fst (project_col f qm j j' mr)) = f * f \<and>
        col_zn f i (fst (project_col f qm j j' mr))" by simp
qed

lemma fold_project_col_length:
  "length (fst (fold (project_col f qm j) xs mr)) = length (fst mr)"
  by (rule fold_invariant[where I = "\<lambda>x::fp list \<times> fp list. length (fst x) = length (fst mr)"]) simp_all

lemma normalize_col_nan:
  assumes i: "i < f" and len: "length qm = f * f" and z: "col_zn f i m" and r: "zn rii"
  shows "col_nan f 0 i (normalize_col f m i rii qm)"
proof -
  have "n \<le> f \<Longrightarrow>
        length (fold (\<lambda>k qm. qm[k * f + i := fdiv binary64 (m ! (k * f + i)) rii]) [0..<n] qm) = f * f \<and>
        (\<forall>k<n. fold (\<lambda>k qm. qm[k * f + i := fdiv binary64 (m ! (k * f + i)) rii]) [0..<n] qm !
                 (k * f + i) = NaN)" for n
  proof (induction n)
    case 0
    show ?case using len by simp
  next
    case (Suc n)
    let ?q = "fold (\<lambda>k qm. qm[k * f + i := fdiv binary64 (m ! (k * f + i)) rii]) [0..<n] qm"
    from Suc have IH: "length ?q = f * f" "\<forall>k<n. ?q ! (k * f + i) = NaN" by simp_all
    have n: "n < f" using Suc.prems by simp
    have lt: "n * f + i < length ?q" using IH(1) index_less[OF n i] by simp
    have v: "fdiv binary64 (m ! (n * f + i)) rii = NaN"
      using z n r by (intro zn_fdiv) (simp_all add: col_zn_def)
    have "?q[n * f + i := NaN] ! (k * f + i) = NaN" if "k < Suc n" for k
    proof (cases "k = n")
      case True
      with lt show ?thesis by simp
    next
      case False
      then have "n * f + i \<noteq> k * f + i" using index_eq[OF i i, of n k] by simp
      then have "?q[n * f + i := NaN] ! (k * f + i) = ?q ! (k * f + i)" by simp
      with IH(2) that False show ?thesis by simp
    qed
    with IH(1) v show ?case by simp
  qed
  from this[of f] show ?thesis by (simp add: normalize_col_def col_nan_def)
qed

lemma normalize_col_other:
  assumes i: "i < f" and j: "j < f" and ne: "i \<noteq> j" and n: "col_nan f 0 i qm"
  shows "col_nan f 0 i (normalize_col f m j rii qm)"
  unfolding normalize_col_def
proof (rule fold_invariant[where I = "col_nan f 0 i"])
  show "col_nan f 0 i qm" by (rule n)
next
  fix k q
  assume I: "col_nan f 0 i q"
  have "q[k * f + j := fdiv binary64 (m ! (k * f + j)) rii] ! (k2 * f + i) = q ! (k2 * f + i)"
    for k2 using index_eq[OF j i, of k k2] ne by simp
  with I show "col_nan f 0 i (q[k * f + j := fdiv binary64 (m ! (k * f + j)) rii])"
    by (simp add: col_nan_def)
qed

lemma gs_column_inv:
  assumes i: "i < f" and j: "j < f" and inv: "gs_inv f i j v"
  shows "gs_inv f i (Suc j) (gs_column f j v)"
proof -
  define rii where "rii = fsqrt binary64 (col_norm f (rq v) j)"
  define qm1 where "qm1 = normalize_col f (rq v) j rii (q_mat v)"
  define mr where "mr = fold (project_col f qm1 j) [Suc j..<f] (rq v, (r_mat v)[j * f + j := rii])"
  have g: "rq (gs_column f j v) = fst mr" "q_mat (gs_column f j v) = qm1"
    by (simp_all add: gs_column_def Let_def mr_def qm1_def rii_def)
  from inv have len: "length (rq v) = f * f" "length (q_mat v) = f * f"
    by (simp_all add: gs_inv_def)
  have l1: "length (fst mr) = f * f"
    unfolding mr_def using len(1) by (simp add: fold_project_col_length)
  have l2: "length qm1 = f * f" unfolding qm1_def using len(2) by simp
  consider "j < i" | "j = i" | "i < j" by linarith
  then show ?thesis
  proof cases
    case 1
    with inv have z: "col_zn f i (rq v)" by (simp add: gs_inv_def)
    from fold_project_col[OF i len(1) z] have "col_zn f i (fst mr)" by (simp add: mr_def)
    then show ?thesis unfolding gs_inv_def g using 1 l1 l2 by simp
  next
    case 2
    with inv have z: "col_zn f i (rq v)" by (simp add: gs_inv_def)
    then have "zn rii" unfolding rii_def 2 by (intro zn_fsqrt col_norm_zn)
    from normalize_col_nan[OF i len(2) z this] have "col_nan f 0 i qm1"
      by (simp add: qm1_def 2)
    then show ?thesis unfolding gs_inv_def g using 2 l1 l2 by simp
  next
    case 3
    with inv have n: "col_nan f 0 i (q_mat v)" by (simp add: gs_inv_def)
    from 3 have "i \<noteq> j" by simp
    from normalize_col_other[OF i j this n] have "col_nan f 0 i qm1" by (simp add: qm1_def)
    then show ?thesis unfolding gs_inv_def g using 3 l1 l2 by simp
  qed
qed

lemma fold_gs_column_inv:
  assumes i: "i < f" and inv: "gs_inv f i 0 v"
  shows "n \<le> f \<Longrightarrow> gs_inv f i n (fold (gs_column f) [0..<n] v)"
proof (induction n)
  case 0
  show ?case using inv by simp
next
  case (Suc n)
  then have "gs_inv f i n (fold (gs_column f) [0..<n] v)" "n < f" by simp_all
  from gs_column_inv[OF i this(2) this(1)] show ?case by simp
qed


section \<open>From the matrix Q to the eigenvectors\<close>

lemma evec_cell_nan_q:
  assumes "i < f" "col_nan f 0 i (q_mat v)"
  shows "evec_cell T f offset v row i = NaN"
proof -
  have "fold (\<lambda>k prod. fadd binary64 prod
                     (fmul binary64 (fcvt binary64 (evecs v ! (offset + row * f + k)))
                                    (q_mat v ! (k * f + i))))
                  [0..<f] (fof_int binary64 0) = NaN"
    using assms by (intro fold_fadd_NaN[where k = i]) (simp_all add: col_nan_def)
  then show ?thesis by (simp add: evec_cell_def)
qed

lemma evec_cell_nan_evecs:
  assumes "i < f" "row < f" "col_nan f offset i (evecs v)"
  shows "evec_cell T f offset v row col = NaN"
proof -
  have "fold (\<lambda>k prod. fadd binary64 prod
                     (fmul binary64 (fcvt binary64 (evecs v ! (offset + row * f + k)))
                                    (q_mat v ! (k * f + col))))
                  [0..<f] (fof_int binary64 0) = NaN"
    using assms by (intro fold_fadd_NaN[where k = i]) (simp_all add: col_nan_def)
  then show ?thesis by (simp add: evec_cell_def)
qed

lemma eigenvectors_q_product_at:
  assumes "row < f" "col < f"
  shows "eigenvectors_q_product T f offset v ! (row * f + col) = evec_cell T f offset v row col"
  using fold_update_matrix_at[of 0 f f "replicate (f * f) (Fin False 0)" row col
          "evec_cell T f offset v"] assms
  by (simp add: eigenvectors_q_product_def)

lemma store_evecs_at:
  assumes "offset + f * f \<le> length ev" "row < f" "col < f"
  shows "store_evecs f offset p ev ! (offset + row * f + col) = p ! (row * f + col)"
  using fold_update_matrix_at[OF assms, of "\<lambda>row col. p ! (row * f + col)"]
  by (simp add: store_evecs_def)

lemma length_store_evecs:
  assumes "offset + f * f \<le> length ev"
  shows "length (store_evecs f offset p ev) = length ev"
  using fold_update_matrix_length[OF assms, of "\<lambda>row col. p ! (row * f + col)"]
  by (simp add: store_evecs_def)

text \<open>
  The variables after the Gram-Schmidt loop of an iteration, and what the iteration
  stores in the eigenvectors.
\<close>

lemma qr_iteration_parts:
  "\<exists>v3. v3 = fold (gs_column f) [0..<f]
             (v\<lparr>rq := sub_diag f (shift_value f v) (rq v), r_mat := clear_mat f (r_mat v),
                q_mat := clear_mat f (q_mat v)\<rparr>) \<and>
        q_mat (qr_iteration T f offset v) = q_mat v3 \<and>
        evecs (qr_iteration T f offset v) =
          store_evecs f offset (eigenvectors_q_product T f offset v3) (evecs v)"
  by (simp add: qr_iteration_def Let_def fold_gs_column_frame)

lemma length_clear_mat [simp]: "length (clear_mat f m) = length m"
  unfolding clear_mat_def
  by (rule fold_invariant[where I = "\<lambda>x. length x = length m"], simp)
     (rule fold_invariant, simp_all)

lemma length_sub_diag [simp]: "length (sub_diag f s m) = length m"
  unfolding sub_diag_def
  by (rule fold_invariant[where I = "\<lambda>x. length x = length m"]) simp_all

lemma length_evecs_qr_iteration:
  assumes "offset + f * f \<le> length (evecs v)"
  shows "length (evecs (qr_iteration T f offset v)) = length (evecs v)"
  using qr_iteration_parts[of f v T offset] length_store_evecs[OF assms] by auto

lemma qr_iteration_zero_column:
  assumes i: "i < f" and len: "length (rq v) = f * f" "length (q_mat v) = f * f"
    and ev: "offset + f * f \<le> length (evecs v)"
    and z: "col_zn f i (sub_diag f (shift_value f v) (rq v))"
  shows "col_nan f 0 i (q_mat (qr_iteration T f offset v)) \<and>
         col_nan f offset i (evecs (qr_iteration T f offset v))"
proof -
  let ?v2 = "v\<lparr>rq := sub_diag f (shift_value f v) (rq v), r_mat := clear_mat f (r_mat v),
                q_mat := clear_mat f (q_mat v)\<rparr>"
  let ?v3 = "fold (gs_column f) [0..<f] ?v2"
  from qr_iteration_parts[of f v T offset]
  have q: "q_mat (qr_iteration T f offset v) = q_mat ?v3"
    and e: "evecs (qr_iteration T f offset v) =
          store_evecs f offset (eigenvectors_q_product T f offset ?v3) (evecs v)"
    by simp_all
  have "gs_inv f i 0 ?v2" using len z by (simp add: gs_inv_def)
  from fold_gs_column_inv[OF i this, of f] i have n: "col_nan f 0 i (q_mat ?v3)"
    by (simp add: gs_inv_def)
  have "evecs (qr_iteration T f offset v) ! (offset + row * f + i) = NaN" if "row < f" for row
    unfolding e using store_evecs_at[OF ev that i] eigenvectors_q_product_at[OF that i]
      evec_cell_nan_q[OF i n] by simp
  with n q show ?thesis by (simp add: col_nan_def)
qed

lemma qr_iteration_nan_column:
  assumes i: "i < f" and ev: "offset + f * f \<le> length (evecs v)"
    and n: "col_nan f offset i (evecs v)"
  shows "col_nan f offset i (evecs (qr_iteration T f offset v))"
proof -
  from qr_iteration_parts[of f v T offset] obtain v3 where
    v3: "v3 = fold (gs_column f) [0..<f]
             (v\<lparr>rq := sub_diag f (shift_value f v) (rq v), r_mat := clear_mat f (r_mat v),
                q_mat := clear_mat f (q_mat v)\<rparr>)"
    and e: "evecs (qr_iteration T f offset v) =
          store_evecs f offset (eigenvectors_q_product T f offset v3) (evecs v)"
    by blast
  have "evecs v3 = evecs v" unfolding v3 by (simp add: fold_gs_column_frame)
  with n have n3: "col_nan f offset i (evecs v3)" by simp
  have "evecs (qr_iteration T f offset v) ! (offset + row * f + i) = NaN" if "row < f" for row
    unfolding e using store_evecs_at[OF ev that i] eigenvectors_q_product_at[OF that i]
      evec_cell_nan_evecs[OF i that n3] by simp
  then show ?thesis by (simp add: col_nan_def)
qed

text \<open>A column of NaN in the eigenvectors stays until the loop is left.\<close>

lemma qr_while_nan_column:
  assumes run: "qr_while T f offset benchmark v = Some res"
    and i: "i < f" and ev: "offset + f * f \<le> length (evecs v)"
    and n: "col_nan f offset i (evecs v)"
  shows "col_nan f offset i (evecs (fst res))"
proof -
  define P where "P = (\<lambda>(T::fformat) f' (offset'::nat) (benchmark::bool) (v::qr_vars)
     (res::qr_vars \<times> bool).
     f' = f \<and> offset' = offset \<and> offset + f * f \<le> length (evecs v) \<and>
     col_nan f offset i (evecs v) \<longrightarrow> col_nan f offset i (evecs (fst res)))"
  have "P T f offset benchmark v res"
  proof (rule qr_while.raw_induct[where P = P, OF _ run])
    fix qr_while' T f' offset' benchmark v res
    assume IH: "\<And>T f offset benchmark v res.
        qr_while' T f offset benchmark v = Some res \<Longrightarrow> P T f offset benchmark v res"
      and eq: "(if converged v then Some (v, False)
         else let v1 = qr_iteration T f' offset' v
              in if f' * f' * 16 < iters v1 \<and> \<not> benchmark then Some (v1, True)
                 else qr_while' T f' offset' benchmark v1) = Some res"
    show "P T f' offset' benchmark v res"
      unfolding P_def
    proof
      assume a: "f' = f \<and> offset' = offset \<and> offset + f * f \<le> length (evecs v) \<and>
                 col_nan f offset i (evecs v)"
      let ?v1 = "qr_iteration T f offset v"
      have n1: "col_nan f offset i (evecs ?v1)"
        using a by (intro qr_iteration_nan_column[OF i]) simp_all
      have l1: "offset + f * f \<le> length (evecs ?v1)"
        using a length_evecs_qr_iteration[of offset f v T] by simp
      show "col_nan f offset i (evecs (fst res))"
      proof (cases "converged v")
        case True
        with eq a show ?thesis by auto
      next
        case nc: False
        show ?thesis
        proof (cases "f * f * 16 < iters ?v1 \<and> \<not> benchmark")
          case True
          with nc eq a have "res = (?v1, True)" by (simp add: Let_def)
          with n1 show ?thesis by simp
        next
          case False
          with nc eq a have "qr_while' T f offset benchmark ?v1 = Some res"
            by (auto simp: Let_def split: if_splits)
          from IH[OF this] n1 l1 show ?thesis by (simp add: P_def)
        qed
      qed
    qed
  qed
  with ev n show ?thesis by (simp add: P_def)
qed

text \<open>Any iteration whose shifted matrix has a column of zeros, followed to the exit.\<close>

lemma qr_while_zero_column:
  assumes run: "qr_while T f offset benchmark v = Some res" and nc: "\<not> converged v"
    and i: "i < f" and len: "length (rq v) = f * f" "length (q_mat v) = f * f"
    and ev: "offset + f * f \<le> length (evecs v)"
    and z: "col_zn f i (sub_diag f (shift_value f v) (rq v))"
  shows "col_nan f offset i (evecs (fst res))"
proof -
  let ?v1 = "qr_iteration T f offset v"
  from qr_iteration_zero_column[OF i len ev z]
  have n1: "col_nan f offset i (evecs ?v1)" by simp
  have l1: "offset + f * f \<le> length (evecs ?v1)"
    using ev length_evecs_qr_iteration[OF ev, of T] by simp
  show ?thesis
  proof (cases "f * f * 16 < iters ?v1 \<and> \<not> benchmark")
    case True
    with run nc have "res = (?v1, True)" by (subst (asm) qr_while.simps) (simp add: Let_def)
    with n1 show ?thesis by simp
  next
    case False
    with run nc have "qr_while T f offset benchmark ?v1 = Some res"
      by (subst (asm) qr_while.simps) (auto simp: Let_def split: if_splits)
    from qr_while_nan_column[OF this i l1 n1] show ?thesis .
  qed
qed


section \<open>A covariance matrix with a column of zeros\<close>

lemma load_rq_at:
  "length (load_rq f offset cov) = f * f"
  "k < f * f \<Longrightarrow> load_rq f offset cov ! k = fcvt binary64 (cov ! (offset + k))"
  using fold_update_row[of 0 "f * f" "replicate (f * f) (Fin False 0)"
          "\<lambda>k. fcvt binary64 (cov ! (offset + k))"]
  by (simp_all add: load_rq_def)

lemma sub_diag_col_zn:
  assumes "zn s" "col_zn f i m"
  shows "col_zn f i (sub_diag f s m)"
  unfolding sub_diag_def
proof (rule fold_invariant[where I = "col_zn f i"])
  show "col_zn f i m" by (rule assms(2))
next
  fix row x
  assume I: "col_zn f i x"
  have "zn (x[row + f * row := fsub binary64 (x ! (row + f * row)) s] ! (k * f + i))"
    if k: "k < f" for k
  proof (cases "row + f * row = k * f + i")
    case True
    have z: "zn (fsub binary64 (x ! (k * f + i)) s)"
      using I k assms(1) by (intro zn_fsub) (simp_all add: col_zn_def)
    show ?thesis
    proof (cases "k * f + i < length x")
      case lt: True
      with True z show ?thesis by simp
    next
      case False
      with True have "x[row + f * row := fsub binary64 (x ! (row + f * row)) s] = x"
        by (intro list_update_beyond) simp
      with I k show ?thesis by (simp add: col_zn_def)
    qed
  next
    case False
    then have "x[row + f * row := fsub binary64 (x ! (row + f * row)) s] ! (k * f + i) =
               x ! (k * f + i)" by simp
    with I k show ?thesis by (simp add: col_zn_def)
  qed
  then show "col_zn f i (x[row + f * row := fsub binary64 (x ! (row + f * row)) s])"
    by (simp add: col_zn_def)
qed

lemma init_vars_sizes:
  "length (rq (init_vars T offset st)) = features st * features st"
  "length (q_mat (init_vars T offset st)) = features st * features st"
  "offset + features st * features st \<le> length (eigenvectors st) \<Longrightarrow>
     length (evecs (init_vars T offset st)) = length (eigenvectors st)"
  using fold_update_matrix_length[of offset "features st" "features st" "eigenvectors st"
          "\<lambda>row column. fof_int T (if row = column then 1 else 0)"]
  by (simp_all add: init_vars_def load_rq_at identity_evecs_def)

text \<open>
  Claim C10. The Gram-Schmidt step divides a column by its norm with no test for zero.
  If column \<open>i\<close> of the covariance matrix of batch entry \<open>m\<close> is zero, the first iteration
  (whose shift is zero) divides zero by zero: column \<open>i\<close> of \<^verbatim>\<open>q\<close> is NaN after it, and
  whenever the solve returns, column \<open>i\<close> of the eigenvectors stored is NaN.
\<close>

theorem zero_column_gives_nan_eigenvectors:
  assumes i: "i < features st"
    and zero: "\<forall>k<features st. \<exists>s. covariance_matrix st !
                (m * features st * features st + k * features st + i) = Fin s 0"
    and size: "m * features st * features st + features st * features st
                 \<le> length (eigenvectors st)"
    and run: "solve_matrix T m st = Some st'"
  shows "(\<forall>k<features st.
            q_mat (qr_iteration T (features st) (m * features st * features st)
                     (init_vars T (m * features st * features st) st)) ! (k * features st + i) = NaN) \<and>
         (\<forall>row<features st.
            eigenvectors st' ! (m * features st * features st + row * features st + i) = NaN)"
proof -
  let ?f = "features st"
  let ?off = "m * ?f * ?f"
  let ?v0 = "init_vars T ?off st"
  from solve_matrix_Some[OF run] obtain res where
    loop: "qr_while T ?f ?off (benchmark_mode st) ?v0 = Some res"
    and st': "st' = report T m ?off res
                (dbg [Text ''\<newline>Computing Eigenvalues and vectors of matrix #'', Index m, Endl] st)"
    by blast
  have ev: "eigenvectors st' = evecs (fst res)" unfolding st' by (simp add: report_fields)
  have len: "length (rq ?v0) = ?f * ?f" "length (q_mat ?v0) = ?f * ?f"
    "?off + ?f * ?f \<le> length (evecs ?v0)"
    using size by (simp_all add: init_vars_sizes)
  have s0: "shift_value ?f ?v0 = Fin False 0" by (simp add: shift_value_def Let_def)
  have "zn (rq ?v0 ! (k * ?f + i))" if k: "k < ?f" for k
  proof -
    from zero k obtain s where
      "covariance_matrix st ! (?off + k * ?f + i) = Fin s 0" by blast
    moreover have "rq ?v0 ! (k * ?f + i) = fcvt binary64 (covariance_matrix st ! (?off + (k * ?f + i)))"
      using index_less[OF k i] by (simp add: init_vars_def load_rq_at)
    ultimately show ?thesis by (simp add: add.assoc)
  qed
  then have "col_zn ?f i (rq ?v0)" by (simp add: col_zn_def)
  then have z: "col_zn ?f i (sub_diag ?f (shift_value ?f ?v0) (rq ?v0))"
    unfolding s0 by (intro sub_diag_col_zn) simp_all
  from qr_iteration_zero_column[OF i len z, of T]
  have q: "col_nan ?f 0 i (q_mat (qr_iteration T ?f ?off ?v0))" by simp
  have nc: "\<not> converged ?v0" by simp
  from qr_while_zero_column[OF loop nc i len z]
  have "col_nan ?f ?off i (evecs (fst res))" .
  with q ev show ?thesis by (simp add: col_nan_def)
qed

text \<open>The hypotheses of C10 hold for the zero matrix of size 2 and its column 0.\<close>

theorem zero_column_gives_nan_eigenvectors_witness:
  "0 < features (zero_cov False) \<and>
   covariance_matrix (zero_cov False) ! 0 = Fin False 0 \<and>
   covariance_matrix (zero_cov False) ! 2 = Fin False 0 \<and>
   features (zero_cov False) * features (zero_cov False)
     \<le> length (eigenvectors (zero_cov False)) \<and>
   solve_matrix binary64 0 (zero_cov False) =
     Some (report binary64 0 0 (nan_vars 65, True) (zero_cov False)) \<and>
   q_mat (qr_iteration binary64 2 0 (init_vars binary64 0 (zero_cov False))) ! 0 = NaN \<and>
   q_mat (qr_iteration binary64 2 0 (init_vars binary64 0 (zero_cov False))) ! 2 = NaN \<and>
   eigenvectors (report binary64 0 0 (nan_vars 65, True) (zero_cov False)) ! 0 = NaN \<and>
   eigenvectors (report binary64 0 0 (nan_vars 65, True) (zero_cov False)) ! 2 = NaN"
proof -
  have c: "covariance_matrix (zero_cov False) ! 0 = Fin False 0"
    "covariance_matrix (zero_cov False) ! 2 = Fin False 0"
    by (simp_all add: zero_cov_def numeral_eq_Suc)
  have h1: "0 < features (zero_cov False)" by (simp add: zero_cov_fields)
  have h2: "\<forall>k<features (zero_cov False). \<exists>s. covariance_matrix (zero_cov False) !
        (0 * features (zero_cov False) * features (zero_cov False)
           + k * features (zero_cov False) + 0) = Fin s 0"
    using c by (auto simp: zero_cov_fields less_Suc_eq numeral_2_eq_2)
  have h3: "0 * features (zero_cov False) * features (zero_cov False)
     + features (zero_cov False) * features (zero_cov False)
     \<le> length (eigenvectors (zero_cov False))"
    by (simp add: zero_cov_def)
  have h4: "solve_matrix binary64 0 (zero_cov False) =
     Some (report binary64 0 0 (nan_vars 65, True) (zero_cov False))"
    using zero_cov_solve(1)[of binary64]
      single_matrix[OF zero_cov_fields(3), where T = binary64 and b1 = False]
    by simp
  from zero_column_gives_nan_eigenvectors[OF h1 h2 h3 h4]
  have q: "\<And>k. k < 2 \<Longrightarrow>
      q_mat (qr_iteration binary64 2 0 (init_vars binary64 0 (zero_cov False))) ! (k * 2) = NaN"
    and e: "\<And>row. row < 2 \<Longrightarrow>
      eigenvectors (report binary64 0 0 (nan_vars 65, True) (zero_cov False)) ! (row * 2) = NaN"
    by (simp_all add: zero_cov_fields)
  from q[of 0] q[of 1] e[of 0] e[of 1] c h1 h3 h4 show ?thesis by simp
qed


end
